theory Spec2Isabelle
  imports Complex_Main "HOL-Library.Sublist" "HOL-Library.Log_Nat"
begin

section \<open>Portfolio page behaviours (js/main.js)\<close>

text \<open>
  The script attaches listeners to a static page. Every listener is modelled as a function
  from the event and the variables of its closure to the new values of those variables,
  the calls it makes on the page (\<open>effect\<close>) and the way it ends (\<open>outcome\<close>).
  What the browser answers (the result of \<open>document.querySelector\<close>, the touch list of an
  event, the parent of a node) is an input of the model.

  Numbers: \<open>Date.now()\<close> and \<open>window.innerWidth\<close> are integers (\<open>int\<close>); scroll offsets and
  touch coordinates are finite JavaScript numbers, modelled as \<open>real\<close>. Comparisons of such
  numbers are exact; a subtraction gives the double nearest to the exact difference
  (\<open>js_minus\<close>).
\<close>

subsection \<open>Calls and outcomes shared by the listeners\<close>

datatype js_error = TypeError | SyntaxError

datatype outcome = Completed | Thrown js_error

type_synonym elem_id = nat

text \<open>
  \<open>e.preventDefault()\<close>, \<open>element.click()\<close>, \<open>element.focus()\<close> and
  \<open>element.scrollIntoView({behavior, block})\<close>, in the order the listener makes them.
\<close>

datatype effect =
    PreventDefault
  | Click elem_id
  | Focus elem_id
  | ScrollIntoView elem_id string string

subsection \<open>What the browser knows about an element\<close>

text \<open>
  The DOM interface of an element decides which methods it has: \<open>click()\<close> is a method of
  \<open>HTMLElement\<close> only, \<open>focus()\<close> of \<open>HTMLElement\<close>, \<open>SVGElement\<close> and \<open>MathMLElement\<close>; an
  element of another namespace is a plain \<open>Element\<close> and has neither. Calling a method an
  element does not have is a TypeError. The selectors of the script look at tag, class and
  attributes only, so they select elements of any interface.
\<close>

datatype interface = HTMLElement | SVGElement | MathMLElement | PlainElement

definition has_click :: "interface \<Rightarrow> bool" where
  "has_click i = (i = HTMLElement)"

definition has_focus :: "interface \<Rightarrow> bool" where
  "has_focus i = (i \<noteq> PlainElement)"

text \<open>
  What the browser answers about an element when a listener runs: its interface, its
  \<open>tabindex\<close> attribute, whether it can take focus without a \<open>tabindex\<close> (a link with an
  \<open>href\<close>, a button, a form control), and whether it is usable (connected, rendered, not
  inert, not disabled).
\<close>

record browser =
  interface_of :: "elem_id \<Rightarrow> interface"
  tabindex_of :: "elem_id \<Rightarrow> string option"
  focusable_unaided :: "elem_id \<Rightarrow> bool"
  usable :: "elem_id \<Rightarrow> bool"

text \<open>
  A \<open>tabindex\<close> counts when its value parses as an integer: after white space and an
  optional sign there is a digit.
\<close>

definition ascii_space :: "char \<Rightarrow> bool" where
  "ascii_space c = (c \<in> set [CHR 0x09, CHR 0x0A, CHR 0x0C, CHR 0x0D, CHR 0x20])"

definition digit :: "char \<Rightarrow> bool" where
  "digit c = (c \<in> set ''0123456789'')"

definition parses_as_integer :: "string \<Rightarrow> bool" where
  "parses_as_integer v =
     (case dropWhile ascii_space v of
        [] \<Rightarrow> False
      | c # cs \<Rightarrow>
          (if c = CHR ''-'' \<or> c = CHR ''+''
           then (case cs of [] \<Rightarrow> False | d # ds \<Rightarrow> digit d)
           else digit c))"

definition focusable :: "browser \<Rightarrow> elem_id \<Rightarrow> bool" where
  "focusable br el =
     (usable br el
      \<and> (focusable_unaided br el
           \<or> (case tabindex_of br el of None \<Rightarrow> False | Some v \<Rightarrow> parses_as_integer v)))"

text \<open>\<open>el.click()\<close>: the call, or a TypeError when the element has no such method.\<close>

definition call_click :: "browser \<Rightarrow> elem_id \<Rightarrow> outcome \<times> effect list" where
  "call_click br el =
     (if has_click (interface_of br el) then (Completed, [Click el])
      else (Thrown TypeError, []))"

text \<open>
  \<open>el.focus()\<close> with \<open>document.activeElement\<close> before and after: the call moves focus to
  an element that is focusable and does nothing to one that is not.
\<close>

definition call_focus ::
  "browser \<Rightarrow> elem_id \<Rightarrow> elem_id option \<Rightarrow> outcome \<times> effect list \<times> elem_id option" where
  "call_focus br el activeElement =
     (if has_focus (interface_of br el)
      then (Completed, [Focus el], if focusable br el then Some el else activeElement)
      else (Thrown TypeError, [], activeElement))"

subsection \<open>Subtraction of doubles\<close>

text \<open>
  A double has 53 significant bits: between \<open>2^e\<close> and \<open>2^(e+1)\<close> the doubles are the
  multiples of \<open>2^(e-52)\<close>. \<open>round_double\<close> takes a real to the nearest of them, a tie to
  the one with the even multiple. The difference of two doubles is a multiple of the
  smallest one, so below the normal range it is a double already and is returned as it is;
  beyond the largest double the result stands for \<open>Infinity\<close>, which compares with finite
  numbers the same way.
\<close>

definition pow2 :: "int \<Rightarrow> real" where
  "pow2 k = (if 0 \<le> k then 2 ^ nat k else 1 / 2 ^ nat (- k))"

definition binade :: "real \<Rightarrow> int" where
  "binade x =
     (if 1 \<le> \<bar>x\<bar> then bitlen \<lfloor>\<bar>x\<bar>\<rfloor> - 1 else - bitlen (\<lceil>1 / \<bar>x\<bar>\<rceil> - 1))"

definition round_even :: "real \<Rightarrow> int" where
  "round_even t =
     (let f = \<lfloor>t\<rfloor>
      in if t - of_int f < 1 / 2 then f
         else if 1 / 2 < t - of_int f then f + 1
         else if even f then f else f + 1)"

definition round_double :: "real \<Rightarrow> real" where
  "round_double x =
     (if x = 0 then 0
      else (let quantum = pow2 (binade x - 52)
            in of_int (round_even (x / quantum)) * quantum))"

definition js_minus :: "real \<Rightarrow> real \<Rightarrow> real" where
  "js_minus a b = round_double (a - b)"

subsection \<open>getBreakpoint\<close>

definition getBreakpoint :: "int \<Rightarrow> string" where
  "getBreakpoint width =
     (if width \<le> 480 then ''mobile''
      else if width \<le> 768 then ''tablet''
      else ''desktop'')"

subsection \<open>setupResponsiveNavigation\<close>

text \<open>
  A scroll event as the listener reads it: \<open>window.pageYOffset\<close>,
  \<open>document.documentElement.scrollTop\<close> and \<open>window.innerWidth\<close>.
\<close>

record scroll_event =
  pageYOffset :: real
  docScrollTop :: real
  innerWidth :: int

text \<open>The closure variable \<open>lastScrollTop\<close> and the header's \<open>style.transform\<close>.\<close>

record header_state =
  lastScrollTop :: real
  transform :: string

text \<open>\<open>a || b\<close> on finite numbers: \<open>0\<close> is the only falsy one.\<close>

definition js_or :: "real \<Rightarrow> real \<Rightarrow> real" where
  "js_or a b = (if a \<noteq> 0 then a else b)"

definition scroll_offset :: "scroll_event \<Rightarrow> real" where
  "scroll_offset ev = js_or (pageYOffset ev) (docScrollTop ev)"

definition on_scroll :: "scroll_event \<Rightarrow> header_state \<Rightarrow> header_state" where
  "on_scroll ev st =
     (let scrollTop = scroll_offset ev;
          st1 = (if innerWidth ev \<le> 768
                 then (if scrollTop > lastScrollTop st \<and> scrollTop > 100
                       then st\<lparr>transform := ''translateY(-100%)''\<rparr>
                       else st\<lparr>transform := ''translateY(0)''\<rparr>)
                 else st\<lparr>transform := ''translateY(0)''\<rparr>)
      in st1\<lparr>lastScrollTop := scrollTop\<rparr>)"

text \<open>
  When the listener is installed \<open>lastScrollTop\<close> is 0; \<open>t0\<close> is the header's inline
  transform at that moment.
\<close>

definition header_initial :: "string \<Rightarrow> header_state" where
  "header_initial t0 = \<lparr>lastScrollTop = 0, transform = t0\<rparr>"

text \<open>The header states after each event of a sequence of scroll events.\<close>

fun scroll_states :: "header_state \<Rightarrow> scroll_event list \<Rightarrow> header_state list" where
  "scroll_states st [] = []"
| "scroll_states st (ev # evs) = on_scroll ev st # scroll_states (on_scroll ev st) evs"

definition scroll_to :: "int \<Rightarrow> real \<Rightarrow> scroll_event" where
  "scroll_to w y = \<lparr>pageYOffset = y, docScrollTop = y, innerWidth = w\<rparr>"

subsection \<open>setupProjectCardInteractions: the touch listeners of a card\<close>

text \<open>
  The three closure variables of a card that contains a \<open>.project-link\<close>.
\<close>

record touch_state =
  touchStartTime :: int
  touchStartY :: real
  isTouchScrolling :: bool

definition touch_initial :: touch_state where
  "touch_initial = \<lparr>touchStartTime = 0, touchStartY = 0, isTouchScrolling = False\<rparr>"

text \<open>
  A touch event as the listeners read it: the value of \<open>Date.now()\<close> when the listener
  runs, and \<open>clientY\<close> of each entry of \<open>e.touches\<close>, in order. The \<open>touchend\<close> listener
  does not read the touch list.
\<close>

datatype touch_event =
    TouchStart int "real list"
  | TouchMove "real list"
  | TouchEnd int

text \<open>
  \<open>e.touches[0].clientY\<close> on an empty list reads a property of \<open>undefined\<close>: a TypeError.
  In the \<open>touchstart\<close> listener the start time is assigned before that read.
\<close>

definition on_touchstart ::
  "int \<Rightarrow> real list \<Rightarrow> touch_state \<Rightarrow> outcome \<times> effect list \<times> touch_state" where
  "on_touchstart now touches st =
     (let st1 = st\<lparr>touchStartTime := now\<rparr>
      in case touches of
           [] \<Rightarrow> (Thrown TypeError, [], st1)
         | clientY # _ \<Rightarrow>
             (Completed, [], st1\<lparr>touchStartY := clientY, isTouchScrolling := False\<rparr>))"

definition on_touchmove ::
  "real list \<Rightarrow> touch_state \<Rightarrow> outcome \<times> effect list \<times> touch_state" where
  "on_touchmove touches st =
     (case touches of
        [] \<Rightarrow> (Thrown TypeError, [], st)
      | touchMoveY # _ \<Rightarrow>
          (let deltaY = \<bar>js_minus touchMoveY (touchStartY st)\<bar>
           in if deltaY > 10
              then (Completed, [], st\<lparr>isTouchScrolling := True\<rparr>)
              else (Completed, [], st)))"

text \<open>\<open>e.preventDefault()\<close> is called before \<open>link.click()\<close>, which may fail.\<close>

definition on_touchend ::
  "browser \<Rightarrow> elem_id \<Rightarrow> int \<Rightarrow> touch_state \<Rightarrow> outcome \<times> effect list \<times> touch_state" where
  "on_touchend br link touchEndTime st =
     (let touchDuration = touchEndTime - touchStartTime st
      in if \<not> isTouchScrolling st \<and> touchDuration < 500
         then (let (res, calls) = call_click br link
               in (res, PreventDefault # calls, st))
         else (Completed, [], st))"

fun card_touch ::
  "browser \<Rightarrow> elem_id \<Rightarrow> touch_event \<Rightarrow> touch_state \<Rightarrow>
     outcome \<times> effect list \<times> touch_state" where
  "card_touch br link (TouchStart now touches) st = on_touchstart now touches st"
| "card_touch br link (TouchMove touches) st = on_touchmove touches st"
| "card_touch br link (TouchEnd now) st = on_touchend br link now st"

text \<open>
  The closure variables after a sequence of touch events on one card. An exception ends
  one listener only: the next event is dispatched all the same.
\<close>

fun touch_run ::
  "browser \<Rightarrow> elem_id \<Rightarrow> touch_state \<Rightarrow> touch_event list \<Rightarrow> touch_state" where
  "touch_run br link st [] = st"
| "touch_run br link st (ev # evs) =
     touch_run br link (snd (snd (card_touch br link ev st))) evs"

fun is_touchstart :: "touch_event \<Rightarrow> bool" where
  "is_touchstart (TouchStart now touches) = True"
| "is_touchstart (TouchMove touches) = False"
| "is_touchstart (TouchEnd now) = False"

text \<open>
  The event is a touch-move whose first touch is, by the listener's subtraction, more than
  10 units above or below \<open>y0\<close>.
\<close>

fun moved_beyond :: "real \<Rightarrow> touch_event \<Rightarrow> bool" where
  "moved_beyond y0 (TouchMove (y # ys)) = (\<bar>js_minus y y0\<bar> > 10)"
| "moved_beyond y0 (TouchMove []) = False"
| "moved_beyond y0 (TouchStart now touches) = False"
| "moved_beyond y0 (TouchEnd now) = False"


subsection \<open>setupProjectCardInteractions: the keydown listener of a card\<close>

definition on_card_keydown :: "browser \<Rightarrow> elem_id \<Rightarrow> string \<Rightarrow> outcome \<times> effect list" where
  "on_card_keydown br link key =
     (if key = ''Enter'' \<or> key = '' ''
      then (let (res, calls) = call_click br link
            in (res, PreventDefault # calls))
      else (Completed, []))"

subsection \<open>setupSmoothScrolling: the click listener of a fragment link\<close>

text \<open>
  What \<open>document.querySelector(s)\<close> answers: an element, \<open>null\<close>, or a SyntaxError when \<open>s\<close>
  is not a valid selector.
\<close>

datatype query_result = Found elem_id | NotFound | Invalid

text \<open>
  \<open>link.getAttribute('href')\<close> is read when the link is clicked: \<open>None\<close> is \<open>null\<close> (the
  attribute was removed since the set-up), which \<open>querySelector\<close> turns into the string
  "null".
\<close>

definition on_anchor_click ::
  "(string \<Rightarrow> query_result) \<Rightarrow> string option \<Rightarrow> outcome \<times> effect list" where
  "on_anchor_click querySelector href =
     (if href = Some ''#'' then (Completed, [])
      else case querySelector (case href of None \<Rightarrow> ''null'' | Some h \<Rightarrow> h) of
             Invalid \<Rightarrow> (Thrown SyntaxError, [])
           | NotFound \<Rightarrow> (Completed, [])
           | Found target \<Rightarrow>
               (Completed, [PreventDefault, ScrollIntoView target ''smooth'' ''start'']))"

subsection \<open>setupKeyboardNavigation: the keydown listener of a grid item\<close>

text \<open>
  \<open>gridItems\<close> is the static list the set-up queried, \<open>index\<close> the item's position in it.
  \<open>gridItems[i].focus()\<close> outside the list would call a method of \<open>undefined\<close>.
\<close>

definition focus_item ::
  "browser \<Rightarrow> elem_id list \<Rightarrow> int \<Rightarrow> elem_id option \<Rightarrow>
     outcome \<times> effect list \<times> elem_id option" where
  "focus_item br gridItems i activeElement =
     (if 0 \<le> i \<and> i < int (length gridItems)
      then (let (res, calls, active) = call_focus br (gridItems ! nat i) activeElement
            in (res, PreventDefault # calls, active))
      else (Thrown TypeError, [PreventDefault], activeElement))"

text \<open>
  The listener with \<open>document.activeElement\<close> before and after. When \<open>link.click()\<close> fails
  the listener ends there.
\<close>

definition on_grid_keydown ::
  "browser \<Rightarrow> elem_id list \<Rightarrow> nat \<Rightarrow> elem_id \<Rightarrow> string \<Rightarrow> elem_id option \<Rightarrow>
     outcome \<times> effect list \<times> elem_id option" where
  "on_grid_keydown br gridItems index link key activeElement =
     (let (res1, calls1) =
            (if key = ''Enter'' \<or> key = '' ''
             then (let (res, calls) = call_click br link in (res, PreventDefault # calls))
             else (Completed, []))
      in if res1 \<noteq> Completed then (res1, calls1, activeElement)
         else (let (res2, calls2, active) =
                     (if key = ''ArrowRight'' \<and> int index < int (length gridItems) - 1
                      then focus_item br gridItems (int index + 1) activeElement
                      else if key = ''ArrowLeft'' \<and> index > 0
                      then focus_item br gridItems (int index - 1) activeElement
                      else (Completed, [], activeElement))
               in (res2, calls1 @ calls2, active)))"

subsection \<open>setupErrorHandling: the error listener of an image\<close>

text \<open>
  The placeholder the listener builds: its class name, the declarations of its
  \<open>style.cssText\<close> and its text.
\<close>

record placeholder =
  ph_className :: string
  ph_cssText :: "(string \<times> string) list"
  ph_textContent :: string

definition image_placeholder :: placeholder where
  "image_placeholder =
     \<lparr>ph_className = ''image-placeholder'',
      ph_cssText =
        [(''width'', ''100%''), (''height'', ''200px''), (''background-color'', ''#f0f0f0''),
         (''display'', ''flex''), (''align-items'', ''center''),
         (''justify-content'', ''center''), (''color'', ''#999''),
         (''font-size'', ''0.875rem''), (''text-transform'', ''uppercase''),
         (''letter-spacing'', ''0.1em'')],
      ph_textContent = ''Image Unavailable''\<rparr>"

datatype node = Placeholder placeholder | Other elem_id

text \<open>
  What the listener reads and writes of the image \<open>this\<close>: its \<open>style.display\<close> and, when it
  has a parent, the children of the parent before it and after it (\<open>None\<close>: \<open>parentNode\<close> is
  \<open>null\<close>). The display is assigned before \<open>this.parentNode.insertBefore\<close> is reached.
\<close>

record img_view =
  display :: string
  siblings :: "(node list \<times> node list) option"

definition on_img_error :: "img_view \<Rightarrow> outcome \<times> img_view" where
  "on_img_error this =
     (let this1 = this\<lparr>display := ''none''\<rparr>
      in case siblings this1 of
           None \<Rightarrow> (Thrown TypeError, this1)
         | Some (before, after) \<Rightarrow>
             (Completed,
              this1\<lparr>siblings := Some (before @ [Placeholder image_placeholder], after)\<rparr>))"

text \<open>The image after a number of error events.\<close>

fun img_errors :: "nat \<Rightarrow> img_view \<Rightarrow> img_view" where
  "img_errors 0 this = this"
| "img_errors (Suc n) this = img_errors n (snd (on_img_error this))"

definition is_placeholder :: "node \<Rightarrow> bool" where
  "is_placeholder n = (case n of Placeholder p \<Rightarrow> True | Other i \<Rightarrow> False)"

subsection \<open>setupErrorHandling: the click listener of a PDF link\<close>

text \<open>
  The link's \<open>textContent\<close> and the pending timers, in the order they were set: each holds
  the instant it is due and the \<open>originalText\<close> its closure captured. Every timer is set
  1000 ms ahead, so with a clock that does not go back they come due in that order.
\<close>

record link_state =
  link_text :: string
  timers :: "(int \<times> string) list"

definition on_pdf_click :: "int \<Rightarrow> link_state \<Rightarrow> link_state" where
  "on_pdf_click now this =
     (let originalText = link_text this
      in this\<lparr>link_text := ''Loading...'', timers := timers this @ [(now + 1000, originalText)]\<rparr>)"

text \<open>The clock reaches \<open>now\<close>: the timers due by then run, oldest first.\<close>

definition run_timers :: "int \<Rightarrow> link_state \<Rightarrow> link_state" where
  "run_timers now this =
     \<lparr>link_text = foldl (\<lambda>shown timer. snd timer) (link_text this)
                     (filter (\<lambda>timer. fst timer \<le> now) (timers this)),
      timers = filter (\<lambda>timer. \<not> fst timer \<le> now) (timers this)\<rparr>"

datatype link_event = Activate int | Elapse int

fun link_step :: "link_event \<Rightarrow> link_state \<Rightarrow> link_state" where
  "link_step (Activate now) this = on_pdf_click now (run_timers now this)"
| "link_step (Elapse now) this = run_timers now this"

fun link_run :: "link_state \<Rightarrow> link_event list \<Rightarrow> link_state" where
  "link_run this [] = this"
| "link_run this (ev # evs) = link_run (link_step ev this) evs"

subsection \<open>setupImageLazyLoading: the intersection callback\<close>

text \<open>
  An image as the callback reads and writes it: the \<open>src\<close> and \<open>data-src\<close> attributes
  (\<open>None\<close>: absent) and the class list.
\<close>

record lazy_img =
  src :: "string option"
  data_src :: "string option"
  classList :: "string list"

text \<open>
  The images by element and the targets the observer watches; \<open>observer = None\<close> when no
  observer was created.
\<close>

record lazy_state =
  imgs :: "elem_id \<Rightarrow> lazy_img"
  observer :: "elem_id list option"

text \<open>\<open>img.dataset.src\<close> is truthy: the attribute is there and not the empty string.\<close>

definition truthy :: "string option \<Rightarrow> bool" where
  "truthy v = (case v of None \<Rightarrow> False | Some s \<Rightarrow> s \<noteq> [])"

definition on_entry :: "elem_id \<times> bool \<Rightarrow> lazy_state \<Rightarrow> lazy_state" where
  "on_entry entry st =
     (let (img, isIntersecting) = entry
      in if isIntersecting
         then (if truthy (data_src (imgs st img))
               then st\<lparr>imgs := (imgs st)
                         (img := \<lparr>src = data_src (imgs st img), data_src = None,
                                  classList = removeAll ''lazy'' (classList (imgs st img))\<rparr>),
                       observer := map_option (removeAll img) (observer st)\<rparr>
               else st)
         else st)"

definition io_callback :: "(elem_id \<times> bool) list \<Rightarrow> lazy_state \<Rightarrow> lazy_state" where
  "io_callback entries st = fold on_entry entries st"

text \<open>
  The browser reports intersection changes of watched targets only, and only to an observer
  that exists.
\<close>

definition intersections :: "(elem_id \<times> bool) list \<Rightarrow> lazy_state \<Rightarrow> lazy_state" where
  "intersections entries st =
     (case observer st of
        None \<Rightarrow> st
      | Some watched \<Rightarrow> io_callback (filter (\<lambda>entry. fst entry \<in> set watched) entries) st)"

subsection \<open>The page and its queries\<close>

text \<open>
  An element: its identity, tag name (lower case), class list, attributes and children in
  document order.
\<close>

datatype elem =
  Elem (el_id: elem_id) (el_tag: string) (el_classes: "string list")
       (el_attrs: "(string \<times> string) list") (el_kids: "elem list")

fun descendants :: "elem \<Rightarrow> elem list" where
  "descendants (Elem i t cs ats ks) = concat (map (\<lambda>k. k # descendants k) ks)"

text \<open>
  The selectors the script uses are compound selectors of at most a tag, a class and one
  attribute test (\<open>[a^="v"]\<close>: the value starts with \<open>v\<close>; \<open>[a*="v"]\<close>: it contains \<open>v\<close>).
\<close>

datatype attr_test = StartsWith string string | Contains string string

datatype selector = Sel "string option" "string option" "attr_test option"

fun attr_holds :: "attr_test \<Rightarrow> elem \<Rightarrow> bool" where
  "attr_holds (StartsWith name v) e =
     (case map_of (el_attrs e) name of None \<Rightarrow> False | Some a \<Rightarrow> prefix v a)"
| "attr_holds (Contains name v) e =
     (case map_of (el_attrs e) name of None \<Rightarrow> False | Some a \<Rightarrow> sublist v a)"

fun matches :: "selector \<Rightarrow> elem \<Rightarrow> bool" where
  "matches (Sel tg cl atst) e =
     ((case tg of None \<Rightarrow> True | Some t \<Rightarrow> el_tag e = t)
      \<and> (case cl of None \<Rightarrow> True | Some c \<Rightarrow> c \<in> set (el_classes e))
      \<and> (case atst of None \<Rightarrow> True | Some a \<Rightarrow> attr_holds a e))"

text \<open>
  \<open>document.querySelectorAll\<close> and \<open>document.querySelector\<close> range over the root element \<open>doc\<close>
  and its descendants; \<open>element.querySelector\<close> over the element's descendants.
\<close>

definition querySelectorAll :: "elem \<Rightarrow> selector \<Rightarrow> elem list" where
  "querySelectorAll doc sel = filter (matches sel) (doc # descendants doc)"

definition querySelector :: "elem \<Rightarrow> selector \<Rightarrow> elem option" where
  "querySelector doc sel = find (matches sel) (doc # descendants doc)"

definition querySelector_in :: "elem \<Rightarrow> selector \<Rightarrow> elem option" where
  "querySelector_in e sel = find (matches sel) (descendants e)"

subsection \<open>The set-up routines\<close>

text \<open>What a set-up routine leaves on the page: listeners, observed images, attributes.\<close>

datatype installed =
    Observe elem_id
  | OnScroll elem_id
  | OnAnchorClick elem_id
  | SetTabindex elem_id string
  | OnCardKeydown elem_id elem_id
  | OnCardTouchstart elem_id
  | OnCardTouchmove elem_id
  | OnCardTouchend elem_id elem_id
  | OnGridKeydown elem_id elem_id nat "elem_id list"
  | OnDocumentKeydown
  | OnImageError elem_id
  | OnPdfClick elem_id

definition setupImageLazyLoading :: "bool \<Rightarrow> elem \<Rightarrow> js_error + installed list" where
  "setupImageLazyLoading has_IntersectionObserver doc =
     (if has_IntersectionObserver
      then (let lazyImages = querySelectorAll doc (Sel (Some ''img'') (Some ''lazy'') None)
            in Inr (map (\<lambda>img. Observe (el_id img)) lazyImages))
      else Inr [])"

definition setupResponsiveNavigation :: "elem \<Rightarrow> js_error + installed list" where
  "setupResponsiveNavigation doc =
     (case querySelector doc (Sel None (Some ''header'') None) of
        None \<Rightarrow> Inr []
      | Some header \<Rightarrow> Inr [OnScroll (el_id header)])"

definition setupSmoothScrolling :: "elem \<Rightarrow> js_error + installed list" where
  "setupSmoothScrolling doc =
     (let links = querySelectorAll doc (Sel (Some ''a'') None (Some (StartsWith ''href'' ''#'')))
      in Inr (map (\<lambda>link. OnAnchorClick (el_id link)) links))"

text \<open>The body of \<open>projectCards.forEach\<close>: a card without a link is left alone.\<close>

definition card_setup :: "elem \<Rightarrow> installed list" where
  "card_setup projectCard =
     (case querySelector_in projectCard (Sel None (Some ''project-link'') None) of
        None \<Rightarrow> []
      | Some link \<Rightarrow>
          [SetTabindex (el_id projectCard) ''0'',
           OnCardKeydown (el_id projectCard) (el_id link),
           OnCardTouchstart (el_id projectCard),
           OnCardTouchmove (el_id projectCard),
           OnCardTouchend (el_id projectCard) (el_id link)])"

definition setupProjectCardInteractions :: "elem \<Rightarrow> js_error + installed list" where
  "setupProjectCardInteractions doc =
     (let projectCards = querySelectorAll doc (Sel None (Some ''project-card'') None)
      in Inr (concat (map card_setup projectCards)))"

text \<open>
  The body of \<open>gridItems.forEach\<close>, called with each item and its index: an item without
  a link is left alone.
\<close>

definition grid_item_setup :: "elem list \<Rightarrow> nat \<times> elem \<Rightarrow> installed list" where
  "grid_item_setup gridItems entry =
     (let (index, item) = entry
      in case querySelector_in item (Sel None (Some ''grid-link'') None) of
           None \<Rightarrow> []
         | Some link \<Rightarrow>
             [SetTabindex (el_id item) ''0'',
              OnGridKeydown (el_id item) (el_id link) index (map el_id gridItems)])"

definition setupKeyboardNavigation :: "elem \<Rightarrow> js_error + installed list" where
  "setupKeyboardNavigation doc =
     (let gridItems = querySelectorAll doc (Sel None (Some ''grid-item'') None);
          grid =
            (if length gridItems > 0
             then concat (map (grid_item_setup gridItems) (enumerate 0 gridItems))
             else [])
      in Inr (grid @ [OnDocumentKeydown]))"

definition setupErrorHandling :: "elem \<Rightarrow> js_error + installed list" where
  "setupErrorHandling doc =
     (let images = querySelectorAll doc (Sel (Some ''img'') None None);
          resumeLinks =
            querySelectorAll doc (Sel (Some ''a'') None (Some (Contains ''href'' ''.pdf'')))
      in Inr (map (\<lambda>img. OnImageError (el_id img)) images
              @ map (\<lambda>link. OnPdfClick (el_id link)) resumeLinks))"

text \<open>
  One routine after the other: an exception in one would leave the later ones unrun.
\<close>

fun in_sequence :: "(js_error + installed list) list \<Rightarrow> js_error + installed list" where
  "in_sequence [] = Inr []"
| "in_sequence (r # rs) =
     (case r of
        Inl err \<Rightarrow> Inl err
      | Inr xs \<Rightarrow> (case in_sequence rs of Inl err \<Rightarrow> Inl err | Inr ys \<Rightarrow> Inr (xs @ ys)))"

definition initializePortfolio :: "bool \<Rightarrow> elem \<Rightarrow> js_error + installed list" where
  "initializePortfolio has_IntersectionObserver doc =
     in_sequence
       [setupImageLazyLoading has_IntersectionObserver doc,
        setupResponsiveNavigation doc,
        setupSmoothScrolling doc,
        setupProjectCardInteractions doc,
        setupKeyboardNavigation doc,
        setupErrorHandling doc]"

text \<open>The listener of the document's keydown: \<open>.back-link\<close> is looked up at each key press.\<close>

definition on_document_keydown ::
  "browser \<Rightarrow> elem \<Rightarrow> string \<Rightarrow> outcome \<times> effect list" where
  "on_document_keydown br doc key =
     (if key = ''Escape''
      then (case querySelector doc (Sel None (Some ''back-link'') None) of
              None \<Rightarrow> (Completed, [])
            | Some backLink \<Rightarrow> call_click br (el_id backLink))
      else (Completed, []))"

text \<open>
  The state the intersection callback starts from: the observer exists when the browser
  has \<open>IntersectionObserver\<close>, and watches the images the set-up observed.
\<close>

fun observed_ids :: "installed list \<Rightarrow> elem_id list" where
  "observed_ids [] = []"
| "observed_ids (Observe i # xs) = i # observed_ids xs"
| "observed_ids (x # xs) = observed_ids xs"

definition lazy_initial :: "bool \<Rightarrow> elem \<Rightarrow> (elem_id \<Rightarrow> lazy_img) \<Rightarrow> lazy_state" where
  "lazy_initial has_IntersectionObserver doc images =
     \<lparr>imgs = images,
      observer =
        (if has_IntersectionObserver
         then (case setupImageLazyLoading has_IntersectionObserver doc of
                 Inl err \<Rightarrow> None
               | Inr xs \<Rightarrow> Some (observed_ids xs))
         else None)\<rparr>"

subsection \<open>Fragments as selectors\<close>

text \<open>
  \<open>document.querySelector(href)\<close> reads the fragment as a CSS selector. The model
  determines the answer in two cases: \<open>#name\<close> with \<open>name\<close> made of a letter or underscore
  followed by letters, digits, underscores and hyphens selects the first element whose \<open>id\<close>
  attribute is \<open>name\<close>; \<open>#\<close> followed by a digit is not a selector (an identifier does not
  start with a digit) and raises SyntaxError. Any other string is answered by \<open>other\<close>.
  Ids are compared as they are written (the document is not in quirks mode).
\<close>

definition ident_start :: "char \<Rightarrow> bool" where
  "ident_start c = (c \<in> set ''abcdefghijklmnopqrstuvwxyzABCDEFGHIJKLMNOPQRSTUVWXYZ_'')"

definition ident_char :: "char \<Rightarrow> bool" where
  "ident_char c = (ident_start c \<or> digit c \<or> c = CHR ''-'')"

definition element_by_id :: "elem \<Rightarrow> string \<Rightarrow> query_result" where
  "element_by_id doc name =
     (case find (\<lambda>e. map_of (el_attrs e) ''id'' = Some name) (doc # descendants doc) of
        None \<Rightarrow> NotFound
      | Some e \<Rightarrow> Found (el_id e))"

fun page_querySelector :: "(string \<Rightarrow> query_result) \<Rightarrow> elem \<Rightarrow> string \<Rightarrow> query_result" where
  "page_querySelector other doc [] = other []"
| "page_querySelector other doc [c] = other [c]"
| "page_querySelector other doc (c # d # cs) =
     (if c = CHR ''#'' \<and> ident_start d \<and> list_all ident_char cs then element_by_id doc (d # cs)
      else if c = CHR ''#'' \<and> digit d then Invalid
      else other (c # d # cs))"

subsection \<open>The specification's reading of a PDF link\<close>

text \<open>
  Following the specification's words, "a hyperlink whose target path ends in .pdf": the
  path is the \<open>href\<close> up to its query (\<open>?\<close>) or fragment (\<open>#\<close>), if any.
\<close>

definition href_path :: "string \<Rightarrow> string" where
  "href_path h = takeWhile (\<lambda>c. c \<noteq> CHR ''?'' \<and> c \<noteq> CHR ''#'') h"

definition spec_path_ends_in_pdf :: "string \<Rightarrow> bool" where
  "spec_path_ends_in_pdf h = suffix ''.pdf'' (href_path h)"

subsection \<open>Watched images\<close>

definition watching :: "lazy_state \<Rightarrow> elem_id \<Rightarrow> bool" where
  "watching st img = (case observer st of None \<Rightarrow> False | Some watched \<Rightarrow> img \<in> set watched)"

subsection \<open>A link that shows "Loading..." for good\<close>


subsection \<open>The page after the set-up\<close>

text \<open>
  The \<open>tabindex\<close> attribute of an element once the set-up has run: \<open>"0"\<close> where the set-up
  set it, the attribute of the markup elsewhere.
\<close>

definition tabindex_after :: "elem \<Rightarrow> installed list \<Rightarrow> elem_id \<Rightarrow> string option" where
  "tabindex_after doc ls el =
     (if SetTabindex el ''0'' \<in> set ls then Some ''0''
      else (case find (\<lambda>e. el_id e = el) (doc # descendants doc) of
              None \<Rightarrow> None
            | Some e \<Rightarrow> map_of (el_attrs e) ''tabindex''))"

text \<open>
  The browser's answers right after the set-up on a page whose elements are all HTML
  elements and usable, and where only the links with an \<open>href\<close> take focus without a
  \<open>tabindex\<close>.
\<close>

definition page_browser :: "elem \<Rightarrow> installed list \<Rightarrow> browser" where
  "page_browser doc ls =
     \<lparr>interface_of = (\<lambda>el. HTMLElement),
      tabindex_of = tabindex_after doc ls,
      focusable_unaided =
        (\<lambda>el. case find (\<lambda>e. el_id e = el) (doc # descendants doc) of
                None \<Rightarrow> False
              | Some e \<Rightarrow> el_tag e = ''a'' \<and> map_of (el_attrs e) ''href'' \<noteq> None),
      usable = (\<lambda>el. True)\<rparr>"

subsection \<open>Pages to run the set-up on\<close>

text \<open>
  A page with every element the script looks for, among them a card and a grid item
  without a link; what the set-up installs on it; a page with none of the optional
  elements; and a page whose link points to an element with the id \<open>7up\<close>.
\<close>

definition full_page :: elem where
  "full_page =
     Elem 0 ''body'' [] []
       [Elem 1 ''header'' [''header''] [] [],
        Elem 2 ''a'' [] [(''href'', ''#section-2'')] [],
        Elem 3 ''a'' [] [(''href'', ''#missing-id'')] [],
        Elem 4 ''section'' [] [(''id'', ''section-2'')]
          [Elem 5 ''div'' [''project-card''] []
             [Elem 6 ''a'' [''project-link''] [(''href'', ''work.html'')] []],
           Elem 7 ''div'' [''project-card''] [] [],
           Elem 8 ''img'' [''lazy''] [(''data-src'', ''a.jpg'')] []],
        Elem 9 ''div'' [''grid-item''] []
          [Elem 10 ''a'' [''grid-link''] [(''href'', ''one.html'')] []],
        Elem 11 ''div'' [''grid-item''] [] [],
        Elem 12 ''div'' [''grid-item''] []
          [Elem 13 ''a'' [''grid-link''] [(''href'', ''three.html'')] []],
        Elem 14 ''a'' [''back-link''] [(''href'', ''resume.pdf'')] [],
        Elem 15 ''a'' [] [(''href'', ''docs.pdf/index.html'')] []]"

definition full_page_installed :: "installed list" where
  "full_page_installed =
     [Observe 8, OnScroll 1, OnAnchorClick 2, OnAnchorClick 3,
      SetTabindex 5 ''0'', OnCardKeydown 5 6, OnCardTouchstart 5, OnCardTouchmove 5,
      OnCardTouchend 5 6,
      SetTabindex 9 ''0'', OnGridKeydown 9 10 0 [9, 11, 12],
      SetTabindex 12 ''0'', OnGridKeydown 12 13 2 [9, 11, 12], OnDocumentKeydown,
      OnImageError 8, OnPdfClick 14, OnPdfClick 15]"

definition full_page_browser :: browser where
  "full_page_browser = page_browser full_page full_page_installed"

text \<open>The same page when its \<open>.project-link\<close> (element 6) is an SVG \<open>a\<close> element.\<close>

definition svg_link_browser :: browser where
  "svg_link_browser =
     full_page_browser
       \<lparr>interface_of := (\<lambda>el. if el = 6 then SVGElement else HTMLElement)\<rparr>"

definition bare_page :: elem where
  "bare_page =
     Elem 0 ''body'' [] []
       [Elem 1 ''div'' [''project-card''] [] [],
        Elem 2 ''div'' [''grid-item''] [] [],
        Elem 3 ''a'' [] [(''href'', ''#2024'')] [],
        Elem 4 ''img'' [] [(''src'', ''a.jpg'')] []]"

text \<open>The attributes of the images of the full page (image 8 is its only image).\<close>

text \<open>A page of five grid items, each with a link, and what the set-up installs on it.\<close>

definition grid_page :: elem where
  "grid_page =
     Elem 0 ''body'' [] []
       [Elem 1 ''div'' [''grid-item''] [] [Elem 2 ''a'' [''grid-link''] [(''href'', ''1.html'')] []],
        Elem 3 ''div'' [''grid-item''] [] [Elem 4 ''a'' [''grid-link''] [(''href'', ''2.html'')] []],
        Elem 5 ''div'' [''grid-item''] [] [Elem 6 ''a'' [''grid-link''] [(''href'', ''3.html'')] []],
        Elem 7 ''div'' [''grid-item''] [] [Elem 8 ''a'' [''grid-link''] [(''href'', ''4.html'')] []],
        Elem 9 ''div'' [''grid-item''] [] [Elem 10 ''a'' [''grid-link''] [(''href'', ''5.html'')] []]]"

definition grid_page_installed :: "installed list" where
  "grid_page_installed =
     [SetTabindex 1 ''0'', OnGridKeydown 1 2 0 [1, 3, 5, 7, 9],
      SetTabindex 3 ''0'', OnGridKeydown 3 4 1 [1, 3, 5, 7, 9],
      SetTabindex 5 ''0'', OnGridKeydown 5 6 2 [1, 3, 5, 7, 9],
      SetTabindex 7 ''0'', OnGridKeydown 7 8 3 [1, 3, 5, 7, 9],
      SetTabindex 9 ''0'', OnGridKeydown 9 10 4 [1, 3, 5, 7, 9],
      OnDocumentKeydown]"

definition grid_page_browser :: browser where
  "grid_page_browser = page_browser grid_page grid_page_installed"

definition digit_id_page :: elem where
  "digit_id_page =
     Elem 0 ''body'' [] []
       [Elem 1 ''a'' [] [(''href'', ''#7up'')] [],
        Elem 2 ''section'' [] [(''id'', ''7up'')] []]"

definition full_page_images :: "elem_id \<Rightarrow> lazy_img" where
  "full_page_images i = \<lparr>src = None, data_src = Some ''a.jpg'', classList = [''lazy'']\<rparr>"

section \<open>Properties\<close>

subsection \<open>Breakpoints\<close>

text \<open>
  C9: for every viewport width \<open>w\<close>, \<open>getBreakpoint\<close> returns "mobile" exactly when
  \<open>w \<le> 480\<close>, "tablet" exactly when \<open>480 < w \<le> 768\<close>, and "desktop" exactly when \<open>w > 768\<close>.
\<close>

theorem getBreakpoint_classifies:
  "(getBreakpoint w = ''mobile'') = (w \<le> 480)
   \<and> (getBreakpoint w = ''tablet'') = (480 < w \<and> w \<le> 768)
   \<and> (getBreakpoint w = ''desktop'') = (768 < w)"
  by (simp add: getBreakpoint_def)

subsection \<open>Header on scroll\<close>

lemma on_scroll_last: "lastScrollTop (on_scroll ev st) = scroll_offset ev"
  by (simp add: on_scroll_def Let_def)

lemma on_scroll_transform:
  "transform (on_scroll ev st) =
     (if innerWidth ev \<le> 768 \<and> scroll_offset ev > lastScrollTop st \<and> scroll_offset ev > 100
      then ''translateY(-100%)'' else ''translateY(0)'')"
  by (simp add: on_scroll_def Let_def)

lemma length_scroll_states: "length (scroll_states st evs) = length evs"
  by (induction evs arbitrary: st) simp_all

lemma scroll_states_nth:
  "k < length evs \<Longrightarrow>
   scroll_states st evs ! k =
     on_scroll (evs ! k)
       (if k = 0 then st else scroll_states st evs ! (k - 1))"
proof (induction evs arbitrary: st k)
  case Nil
  then show ?case by simp
next
  case (Cons ev evs)
  show ?case
  proof (cases k)
    case 0
    then show ?thesis by simp
  next
    case (Suc j)
    with Cons.prems have j: "j < length evs" by simp
    show ?thesis
      using Cons.IH [OF j, of "on_scroll ev st"] Suc
      by (cases j) simp_all
  qed
qed

lemma scroll_states_prev:
  "k < length evs \<Longrightarrow>
   lastScrollTop (if k = 0 then st else scroll_states st evs ! (k - 1)) =
     (if k = 0 then lastScrollTop st else scroll_offset (evs ! (k - 1)))"
proof (cases k)
  case 0
  then show ?thesis by simp
next
  case (Suc j)
  assume "k < length evs"
  with Suc have "j < length evs" by simp
  then have "lastScrollTop (scroll_states st evs ! j) = scroll_offset (evs ! j)"
    by (subst scroll_states_nth) (simp_all add: on_scroll_last)
  with Suc show ?thesis by simp
qed

text \<open>
  C2: after the \<open>k\<close>-th scroll event the header is hidden (\<open>translateY(-100%)\<close>) exactly when
  the width is at most 768 and the event's offset is strictly greater than the offset recorded
  by the previous event (0 before the first) and strictly greater than 100; otherwise it is
  shown (\<open>translateY(0)\<close>), in particular whenever the width is above 768; the recorded offset
  after every event is that event's offset. At a width of at most 768 the offsets
  0, 50, 150, 120 give shown, shown, hidden, shown: after 50, 150 and 120 the header is
  shown, hidden, shown.
\<close>

theorem header_scroll_behaviour:
  "(k < length evs \<longrightarrow>
      transform (scroll_states st evs ! k) =
        (if innerWidth (evs ! k) \<le> 768
            \<and> scroll_offset (evs ! k) >
                (if k = 0 then lastScrollTop st else scroll_offset (evs ! (k - 1)))
            \<and> scroll_offset (evs ! k) > 100
         then ''translateY(-100%)'' else ''translateY(0)'')
      \<and> (innerWidth (evs ! k) > 768 \<longrightarrow>
           transform (scroll_states st evs ! k) = ''translateY(0)'')
      \<and> lastScrollTop (scroll_states st evs ! k) = scroll_offset (evs ! k))
   \<and> (w \<le> 768 \<longrightarrow>
        map transform (scroll_states (header_initial t0) (map (scroll_to w) [0, 50, 150, 120])) =
          [''translateY(0)'', ''translateY(0)'', ''translateY(-100%)'', ''translateY(0)''])"
proof (intro conjI impI)
  assume k: "k < length evs"
  have nth: "scroll_states st evs ! k =
      on_scroll (evs ! k) (if k = 0 then st else scroll_states st evs ! (k - 1))"
    using k by (rule scroll_states_nth)
  show tr: "transform (scroll_states st evs ! k) =
        (if innerWidth (evs ! k) \<le> 768
            \<and> scroll_offset (evs ! k) >
                (if k = 0 then lastScrollTop st else scroll_offset (evs ! (k - 1)))
            \<and> scroll_offset (evs ! k) > 100
         then ''translateY(-100%)'' else ''translateY(0)'')"
    unfolding nth on_scroll_transform scroll_states_prev [OF k] ..
  show "lastScrollTop (scroll_states st evs ! k) = scroll_offset (evs ! k)"
    unfolding nth by (rule on_scroll_last)
  assume "innerWidth (evs ! k) > 768"
  then show "transform (scroll_states st evs ! k) = ''translateY(0)''"
    unfolding tr by simp
next
  assume w: "w \<le> 768"
  show "map transform (scroll_states (header_initial t0) (map (scroll_to w) [0, 50, 150, 120])) =
          [''translateY(0)'', ''translateY(0)'', ''translateY(-100%)'', ''translateY(0)'']"
    using w
    by (simp add: on_scroll_transform on_scroll_last scroll_to_def scroll_offset_def js_or_def
        header_initial_def)
qed

theorem header_scroll_behaviour_witness:
  "map transform
     (scroll_states (header_initial '''')
        (map (scroll_to 375) [0, 50, 150, 120])) =
     [''translateY(0)'', ''translateY(0)'', ''translateY(-100%)'', ''translateY(0)'']
   \<and> transform
       (scroll_states \<lparr>lastScrollTop = 0, transform = ''''\<rparr>
          (map (scroll_to 1024) [0, 50, 150, 120]) ! 2) = ''translateY(0)''
   \<and> lastScrollTop
       (scroll_states \<lparr>lastScrollTop = 0, transform = ''''\<rparr>
          (map (scroll_to 1024) [0, 50, 150, 120]) ! 2) = 150"
  using header_scroll_behaviour
          [of 2 "map (scroll_to 1024) [0, 50, 150, 120]"
              "\<lparr>lastScrollTop = 0, transform = ''''\<rparr>" 375 "''''"]
  by (simp add: scroll_to_def scroll_offset_def js_or_def)

subsection \<open>The rounded difference and the threshold of 10\<close>

lemma pow2_powr: "pow2 k = 2 powr (of_int k)"
  by (auto simp: pow2_def powr_realpow[symmetric] powr_minus divide_simps)

lemma pow2_pos: "0 < pow2 k"
  by (simp add: pow2_powr)

lemma pow2_add: "pow2 (a + b) = pow2 a * pow2 b"
  by (simp add: pow2_powr powr_add)

lemma pow2_mono: "a \<le> b \<Longrightarrow> pow2 a \<le> pow2 b"
  by (simp add: pow2_powr)

lemma pow2_less: "pow2 a < pow2 b \<Longrightarrow> a < b"
  by (simp add: pow2_powr)

lemma binade_bounds:
  assumes "x \<noteq> 0"
  shows "pow2 (binade x) \<le> \<bar>x\<bar> \<and> \<bar>x\<bar> < pow2 (binade x + 1)"
proof (cases "1 \<le> \<bar>x\<bar>")
  case True
  let ?n = "\<lfloor>\<bar>x\<bar>\<rfloor>"
  from True have n: "0 < ?n" by linarith
  note b = bitlen_bounds [OF n]
  have b1: "1 \<le> bitlen ?n" using n by (auto simp: bitlen_alt_def)
  have e: "binade x = bitlen ?n - 1" using True by (simp add: binade_def)
  have "pow2 (bitlen ?n - 1) = 2 ^ nat (bitlen ?n - 1)"
    using b1 by (simp add: pow2_def)
  also have "\<dots> \<le> of_int ?n"
    using b by (metis of_int_le_iff of_int_numeral of_int_power)
  also have "\<dots> \<le> \<bar>x\<bar>" by simp
  finally have lo: "pow2 (binade x) \<le> \<bar>x\<bar>" by (simp add: e)
  have "?n + 1 \<le> 2 ^ nat (bitlen ?n)" using b by simp
  then have "of_int (?n + 1) \<le> (2::real) ^ nat (bitlen ?n)"
    by (metis of_int_le_iff of_int_numeral of_int_power)
  moreover have "\<bar>x\<bar> < of_int (?n + 1)" by linarith
  ultimately have "\<bar>x\<bar> < 2 ^ nat (bitlen ?n)" by linarith
  moreover have "pow2 (binade x + 1) = 2 ^ nat (bitlen ?n)"
    using b1 by (simp add: e pow2_def)
  ultimately show ?thesis using lo by simp
next
  case False
  with assms have x: "0 < \<bar>x\<bar>" "\<bar>x\<bar> < 1" by simp_all
  let ?y = "1 / \<bar>x\<bar>"
  let ?m = "\<lceil>?y\<rceil> - 1"
  from x have y: "1 < ?y" by simp
  then have m: "0 < ?m" by linarith
  note b = bitlen_bounds [OF m]
  have b1: "1 \<le> bitlen ?m" using m by (auto simp: bitlen_alt_def)
  have e: "binade x = - bitlen ?m" using False by (simp add: binade_def)
  have "?y \<le> of_int (?m + 1)" by simp
  also have "\<dots> \<le> 2 ^ nat (bitlen ?m)"
  proof -
    have "?m + 1 \<le> 2 ^ nat (bitlen ?m)" using b by simp
    then show ?thesis by (metis of_int_le_iff of_int_numeral of_int_power)
  qed
  finally have "?y \<le> 2 ^ nat (bitlen ?m)" .
  then have "1 / 2 ^ nat (bitlen ?m) \<le> \<bar>x\<bar>"
    using x by (simp add: field_simps)
  moreover have "pow2 (binade x) = 1 / 2 ^ nat (bitlen ?m)"
    using b1 by (simp add: e pow2_def)
  ultimately have lo: "pow2 (binade x) \<le> \<bar>x\<bar>" by simp
  have "(2::real) ^ nat (bitlen ?m - 1) \<le> of_int ?m"
    using b by (metis of_int_le_iff of_int_numeral of_int_power)
  also have "\<dots> < ?y" by linarith
  finally have "2 ^ nat (bitlen ?m - 1) < ?y" .
  then have "\<bar>x\<bar> < 1 / 2 ^ nat (bitlen ?m - 1)"
    using x by (simp add: field_simps)
  moreover have "pow2 (binade x + 1) = 1 / 2 ^ nat (bitlen ?m - 1)"
  proof (cases "bitlen ?m = 1")
    case True
    then show ?thesis by (simp add: e pow2_def)
  next
    case False
    with b1 have "- bitlen ?m + 1 < 0" by simp
    then show ?thesis by (simp add: e pow2_def)
  qed
  ultimately show ?thesis using lo by simp
qed

lemma round_even_minus: "round_even (- t) = - round_even t"
proof (cases "t = of_int \<lfloor>t\<rfloor>")
  case True
  then obtain n where "t = of_int n" by metis
  then show ?thesis by (simp add: round_even_def)
next
  case False
  then have c: "\<lceil>t\<rceil> = \<lfloor>t\<rfloor> + 1"
    by (metis ceiling_altdef)
  have f: "\<lfloor>- t\<rfloor> = - \<lfloor>t\<rfloor> - 1"
    using c by (simp add: ceiling_def)
  show ?thesis
    unfolding round_even_def Let_def f by (auto simp: field_simps)
qed

lemma round_even_above_even:
  assumes "even n"
  shows "(of_int n < (of_int (round_even t) :: real)) = (of_int n + 1 / 2 < t)"
proof -
  let ?f = "\<lfloor>t\<rfloor>"
  consider "?f < n" | "?f = n" | "n < ?f" by linarith
  then show ?thesis
  proof cases
    case 1
    then have "round_even t \<le> n" by (auto simp: round_even_def Let_def)
    moreover from 1 have "t < of_int n" by linarith
    ultimately show ?thesis by simp
  next
    case 2
    then show ?thesis using assms by (auto simp: round_even_def Let_def)
  next
    case 3
    then have "n < round_even t" by (auto simp: round_even_def Let_def)
    moreover from 3 have "of_int n + 1 \<le> t" by linarith
    ultimately show ?thesis by simp
  qed
qed

lemma round_even_bounds: "of_int (round_even t) \<le> t + 1 / 2 \<and> t - 1 / 2 \<le> of_int (round_even t)"
  by (auto simp: round_even_def Let_def) linarith+

lemma round_even_mono_int: "of_int n \<le> t \<Longrightarrow> n \<le> round_even t"
proof -
  assume "of_int n \<le> t"
  then have "n \<le> \<lfloor>t\<rfloor>" by (simp add: le_floor_iff)
  then show ?thesis by (auto simp: round_even_def Let_def)
qed

lemma round_even_le_int: "t \<le> of_int n \<Longrightarrow> round_even t \<le> n"
proof -
  assume "t \<le> of_int n"
  then have "of_int (- n) \<le> - t" by simp
  then have "- n \<le> round_even (- t)" by (rule round_even_mono_int)
  then show ?thesis by (simp add: round_even_minus)
qed

lemma binade_eq:
  assumes "pow2 k \<le> \<bar>x\<bar>" and "\<bar>x\<bar> < pow2 (k + 1)"
  shows "binade x = k"
proof -
  from assms(1) have x: "x \<noteq> 0" using pow2_pos [of k] by auto
  note b = binade_bounds [OF x]
  from b assms(2) have "pow2 (binade x) < pow2 (k + 1)" by linarith
  then have "binade x < k + 1" by (rule pow2_less)
  moreover from b assms(1) have "pow2 k < pow2 (binade x + 1)" by linarith
  then have "k < binade x + 1" by (rule pow2_less)
  ultimately show ?thesis by simp
qed

lemma round_double_minus: "round_double (- x) = - round_double x"
  by (simp add: round_double_def binade_def round_even_minus Let_def)

lemma round_double_exceeds_10_pos:
  assumes "0 \<le> d"
  shows "(10 < round_double d) = (10 + 1 / 2 ^ 50 < d)"
proof -
  consider "d = 0" | "0 < d" "d < 8" | "8 \<le> d" "d < 16" | "16 \<le> d"
    using assms by linarith
  then show ?thesis
  proof cases
    case 1
    then show ?thesis by (simp add: round_double_def)
  next
    case 2
    then have x: "d \<noteq> 0" by simp
    note b = binade_bounds [OF x]
    let ?q = "pow2 (binade d - 52)"
    have q: "0 < ?q" by (rule pow2_pos)
    from b 2 have "pow2 (binade d) < pow2 3" by (simp add: pow2_def)
    then have e: "binade d + 1 \<le> 3" using pow2_less by fastforce
    have "d / ?q < pow2 (binade d + 1) / ?q"
      using b 2 q by (simp add: divide_strict_right_mono)
    also have "pow2 (binade d + 1) / ?q = pow2 53"
      using pow2_add [of "binade d - 52" 53] q by (simp add: field_simps)
    also have "pow2 53 = of_int (2 ^ 53)" by (simp add: pow2_def)
    finally have "round_even (d / ?q) \<le> 2 ^ 53"
      by (intro round_even_le_int) simp
    then have "of_int (round_even (d / ?q)) * ?q \<le> of_int (2 ^ 53) * ?q"
      using q by (simp del: of_int_power of_int_numeral)
    also have "of_int (2 ^ 53) * ?q = pow2 (binade d + 1)"
      using pow2_add [of "binade d - 52" 53] by (simp add: pow2_def field_simps)
    also have "\<dots> \<le> pow2 3" using e by (rule pow2_mono)
    finally have "round_double d \<le> 8"
      using x by (simp add: round_double_def Let_def pow2_def)
    with 2 show ?thesis by simp
  next
    case 3
    then have e: "binade d = 3"
      by (intro binade_eq) (simp_all add: pow2_def)
    from 3 have x: "d \<noteq> 0" by simp
    have q: "pow2 (- 49) = 1 / 2 ^ 49" by (simp add: pow2_def)
    have r: "round_double d = of_int (round_even (d * 2 ^ 49)) / 2 ^ 49"
      using x by (simp add: round_double_def e q Let_def)
    have "even (10 * 2 ^ 49 :: int)" by simp
    from round_even_above_even [OF this, of "d * 2 ^ 49"]
    have "(10 * 2 ^ 49 < (of_int (round_even (d * 2 ^ 49)) :: real)) =
        (10 * 2 ^ 49 + 1 / 2 < d * 2 ^ 49)"
      by simp
    then show ?thesis
      unfolding r by (simp add: field_simps)
  next
    case 4
    then have x: "d \<noteq> 0" by simp
    note b = binade_bounds [OF x]
    let ?q = "pow2 (binade d - 52)"
    have q: "0 < ?q" by (rule pow2_pos)
    from b 4 have "pow2 4 < pow2 (binade d + 1)" by (simp add: pow2_def)
    then have e: "4 \<le> binade d" using pow2_less by fastforce
    have "pow2 (binade d) / ?q \<le> d / ?q"
      using b 4 q by (simp add: divide_right_mono)
    moreover have "pow2 (binade d) / ?q = pow2 52"
      using pow2_add [of "binade d - 52" 52] q by (simp add: field_simps)
    moreover have "pow2 52 = of_int (2 ^ 52)" by (simp add: pow2_def)
    ultimately have "2 ^ 52 \<le> round_even (d / ?q)"
      by (intro round_even_mono_int) simp
    then have "of_int (2 ^ 52) * ?q \<le> of_int (round_even (d / ?q)) * ?q"
      using q by (simp del: of_int_power of_int_numeral)
    moreover have "of_int (2 ^ 52) * ?q = pow2 (binade d)"
      using pow2_add [of "binade d - 52" 52] by (simp add: pow2_def field_simps)
    moreover have "pow2 4 \<le> pow2 (binade d)" using e by (rule pow2_mono)
    ultimately have "16 \<le> round_double d"
      using x by (simp add: round_double_def Let_def pow2_def)
    moreover have "(10::real) + 1 / 2 ^ 50 < 16" by simp
    ultimately show ?thesis using 4 by simp
  qed
qed

lemma round_double_nonneg: "0 \<le> d \<Longrightarrow> 0 \<le> round_double d"
proof -
  assume d: "0 \<le> d"
  have "0 \<le> round_even (d / pow2 (binade d - 52))"
    using d pow2_pos [of "binade d - 52"] by (intro round_even_mono_int) simp
  then show ?thesis
    using pow2_pos [of "binade d - 52"] by (simp add: round_double_def Let_def)
qed

lemma round_double_exceeds_10:
  "(10 < \<bar>round_double d\<bar>) = (10 + 1 / 2 ^ 50 < \<bar>d\<bar>)"
proof (cases "0 \<le> d")
  case True
  then show ?thesis
    using round_double_nonneg [OF True] round_double_exceeds_10_pos [OF True] by simp
next
  case False
  then have n: "0 \<le> - d" by simp
  from round_double_nonneg [OF n] round_double_exceeds_10_pos [OF n] False
  show ?thesis by (simp add: round_double_minus)
qed

lemma js_minus_exceeds_10:
  "(10 < \<bar>js_minus a b\<bar>) = (10 + 1 / 2 ^ 50 < \<bar>a - b\<bar>)"
  unfolding js_minus_def by (rule round_double_exceeds_10)

subsection \<open>Tap or scroll on a card\<close>

lemma touch_run_append:
  "touch_run br link st (xs @ ys) = touch_run br link (touch_run br link st xs) ys"
  by (induction xs arbitrary: st) simp_all

lemma on_touchend_state: "snd (snd (on_touchend br link now st)) = st"
  by (simp add: on_touchend_def Let_def split: prod.split)

lemma card_touch_not_start:
  "\<not> is_touchstart ev \<Longrightarrow>
   touchStartTime (snd (snd (card_touch br link ev st))) = touchStartTime st
   \<and> touchStartY (snd (snd (card_touch br link ev st))) = touchStartY st
   \<and> isTouchScrolling (snd (snd (card_touch br link ev st))) =
       (isTouchScrolling st \<or> moved_beyond (touchStartY st) ev)"
proof (cases ev)
  case (TouchStart now touches)
  assume "\<not> is_touchstart ev"
  with TouchStart show ?thesis by simp
next
  case (TouchMove touches)
  then show ?thesis
    by (cases touches) (simp_all add: on_touchmove_def Let_def)
next
  case (TouchEnd now)
  then show ?thesis by (simp add: on_touchend_state)
qed

lemma touch_run_no_start:
  "\<forall>ev\<in>set evs. \<not> is_touchstart ev \<Longrightarrow>
   touchStartTime (touch_run br link st evs) = touchStartTime st
   \<and> touchStartY (touch_run br link st evs) = touchStartY st
   \<and> isTouchScrolling (touch_run br link st evs) =
       (isTouchScrolling st \<or> (\<exists>ev\<in>set evs. moved_beyond (touchStartY st) ev))"
proof (induction evs arbitrary: st)
  case Nil
  then show ?case by simp
next
  case (Cons ev evs)
  from Cons.prems have ev: "\<not> is_touchstart ev" and evs: "\<forall>e\<in>set evs. \<not> is_touchstart e"
    by simp_all
  note step = card_touch_not_start [OF ev, of br link st]
  note rest = Cons.IH [OF evs, of "snd (snd (card_touch br link ev st))"]
  show ?case
    using step rest by auto
qed

lemma touch_run_after_start:
  assumes "\<forall>ev\<in>set mid. \<not> is_touchstart ev"
  shows "touch_run br link st (pre @ TouchStart t (y # ys) # mid) =
           \<lparr>touchStartTime = t, touchStartY = y,
            isTouchScrolling = (\<exists>ev\<in>set mid. moved_beyond y ev)\<rparr>"
proof -
  let ?s1 = "\<lparr>touchStartTime = t, touchStartY = y, isTouchScrolling = False\<rparr>"
  have "touch_run br link st (pre @ TouchStart t (y # ys) # mid) = touch_run br link ?s1 mid"
    by (cases "touch_run br link st pre") (simp add: touch_run_append on_touchstart_def)
  moreover have "touch_run br link ?s1 mid =
      \<lparr>touchStartTime = t, touchStartY = y,
       isTouchScrolling = (\<exists>ev\<in>set mid. moved_beyond y ev)\<rparr>"
    using touch_run_no_start [OF assms, of br link ?s1]
    by (cases "touch_run br link ?s1 mid") simp
  ultimately show ?thesis by simp
qed

lemma on_touchend_result:
  "on_touchend br link t' st =
     (if \<not> isTouchScrolling st \<and> t' - touchStartTime st < 500
      then (if has_click (interface_of br link)
            then (Completed, [PreventDefault, Click link], st)
            else (Thrown TypeError, [PreventDefault], st))
      else (Completed, [], st))"
  by (simp add: on_touchend_def call_click_def Let_def)

text \<open>
  C1 as stated fails in two places. The set-up takes as the card's link whatever element
  has the class \<open>project-link\<close>; when that element is an SVG \<open>a\<close> element, which has no
  \<open>click()\<close>, a quick tap without a move prevents default and then ends in a TypeError: the
  link is not clicked. And the listener subtracts in doubles: after a touch-start at
  \<open>-2^-60\<close> a move to 10 is more than 10 units away, yet the computed delta is exactly 10 and
  the scrolling flag stays unset.
\<close>

theorem card_tap_counterexample:
  "card_touch svg_link_browser 6 (TouchEnd 200)
     (touch_run svg_link_browser 6 touch_initial [TouchStart 0 [100]]) =
     (Thrown TypeError, [PreventDefault],
      \<lparr>touchStartTime = 0, touchStartY = 100, isTouchScrolling = False\<rparr>)
   \<and> (10::real) < \<bar>10 - (- (1 / 2 ^ 60))\<bar>
   \<and> \<not> isTouchScrolling
         (touch_run full_page_browser 6 touch_initial
            [TouchStart 0 [- (1 / 2 ^ 60)], TouchMove [10]])"
proof -
  have "\<not> moved_beyond (- (1 / 2 ^ 60)) (TouchMove [10])"
    by (simp add: js_minus_exceeds_10)
  then have "\<not> isTouchScrolling
         (touch_run full_page_browser 6 touch_initial
            [TouchStart 0 [- (1 / 2 ^ 60)], TouchMove [10]])"
    by (simp add: touch_run_after_start [of "[TouchMove [10]]" _ _ _ "[]", simplified])
  moreover have "card_touch svg_link_browser 6 (TouchEnd 200)
     (touch_run svg_link_browser 6 touch_initial [TouchStart 0 [100]]) =
     (Thrown TypeError, [PreventDefault],
      \<lparr>touchStartTime = 0, touchStartY = 100, isTouchScrolling = False\<rparr>)"
    by (simp add: on_touchend_result on_touchstart_def touch_initial_def svg_link_browser_def
        has_click_def)
  ultimately show ?thesis by simp
qed

text \<open>
  C1, amended: on a card with a link, a touch-start carrying a touch resets the start time,
  the start position and the scrolling flag. After a touch-start at time \<open>t\<close> and position
  \<open>y\<close> followed by events \<open>mid\<close> with no further touch-start, the scrolling flag is set
  exactly when for some touch-move of \<open>mid\<close> the absolute vertical delta from \<open>y\<close>, as the
  listener computes it in doubles, exceeds 10 (the exact delta then exceeds \<open>10 + 2^-50\<close>);
  it stays set until the next touch-start. A touch-end at time \<open>t'\<close> acts exactly when the
  flag is not set and \<open>t' - t < 500\<close>: it prevents default and, when the link is an HTML
  element, clicks it; when the link has no \<open>click()\<close> it ends in a TypeError after preventing
  default. Otherwise the touch-end does nothing.
\<close>

theorem card_tap_iff_quick_and_still:
  assumes "\<forall>ev\<in>set mid. \<not> is_touchstart ev"
  shows
    "card_touch br link (TouchStart t (y # ys)) st =
       (Completed, [], \<lparr>touchStartTime = t, touchStartY = y, isTouchScrolling = False\<rparr>)
     \<and> isTouchScrolling (touch_run br link st (pre @ TouchStart t (y # ys) # mid)) =
         (\<exists>ev\<in>set mid. moved_beyond y ev)
     \<and> moved_beyond y (TouchMove (y' # ys')) = (10 + 1 / 2 ^ 50 < \<bar>y' - y\<bar>)
     \<and> card_touch br link (TouchEnd t')
         (touch_run br link st (pre @ TouchStart t (y # ys) # mid)) =
         (if \<not> (\<exists>ev\<in>set mid. moved_beyond y ev) \<and> t' - t < 500
          then (if has_click (interface_of br link)
                then (Completed, [PreventDefault, Click link],
                      touch_run br link st (pre @ TouchStart t (y # ys) # mid))
                else (Thrown TypeError, [PreventDefault],
                      touch_run br link st (pre @ TouchStart t (y # ys) # mid)))
          else (Completed, [], touch_run br link st (pre @ TouchStart t (y # ys) # mid)))
     \<and> card_touch br link (TouchEnd t') st0 =
         (if \<not> isTouchScrolling st0 \<and> t' - touchStartTime st0 < 500
          then (if has_click (interface_of br link)
                then (Completed, [PreventDefault, Click link], st0)
                else (Thrown TypeError, [PreventDefault], st0))
          else (Completed, [], st0))"
proof -
  note run = touch_run_after_start [OF assms, of br link st pre t y ys]
  have "card_touch br link (TouchStart t (y # ys)) st =
       (Completed, [], \<lparr>touchStartTime = t, touchStartY = y, isTouchScrolling = False\<rparr>)"
    by (cases st) (simp add: on_touchstart_def)
  moreover have "isTouchScrolling (touch_run br link st (pre @ TouchStart t (y # ys) # mid)) =
         (\<exists>ev\<in>set mid. moved_beyond y ev)"
    unfolding run by simp
  moreover have "moved_beyond y (TouchMove (y' # ys')) = (10 + 1 / 2 ^ 50 < \<bar>y' - y\<bar>)"
    by (simp add: js_minus_exceeds_10)
  moreover have "card_touch br link (TouchEnd t') st0 =
         (if \<not> isTouchScrolling st0 \<and> t' - touchStartTime st0 < 500
          then (if has_click (interface_of br link)
                then (Completed, [PreventDefault, Click link], st0)
                else (Thrown TypeError, [PreventDefault], st0))
          else (Completed, [], st0))" for st0
    by (simp add: on_touchend_result)
  moreover have "card_touch br link (TouchEnd t')
         (touch_run br link st (pre @ TouchStart t (y # ys) # mid)) =
         (if \<not> (\<exists>ev\<in>set mid. moved_beyond y ev) \<and> t' - t < 500
          then (if has_click (interface_of br link)
                then (Completed, [PreventDefault, Click link],
                      touch_run br link st (pre @ TouchStart t (y # ys) # mid))
                else (Thrown TypeError, [PreventDefault],
                      touch_run br link st (pre @ TouchStart t (y # ys) # mid)))
          else (Completed, [], touch_run br link st (pre @ TouchStart t (y # ys) # mid)))"
    unfolding run by (simp add: on_touchend_result)
  ultimately show ?thesis by blast
qed

text \<open>
  The two touch sequences of the specification on the full page, whose link 6 is an HTML
  element: a tap (start at \<open>y = 100\<close>, \<open>t = 0\<close>, end at \<open>t = 200\<close>) clicks the link; with a
  move to \<open>y = 130\<close> in between it does not.
\<close>

theorem card_tap_iff_quick_and_still_witness:
  "card_touch full_page_browser 6 (TouchEnd 200)
     (touch_run full_page_browser 6 touch_initial [TouchStart 0 [100]]) =
     (Completed, [PreventDefault, Click 6],
      \<lparr>touchStartTime = 0, touchStartY = 100, isTouchScrolling = False\<rparr>)
   \<and> card_touch full_page_browser 6 (TouchEnd 200)
       (touch_run full_page_browser 6 touch_initial [TouchStart 0 [100], TouchMove [130]]) =
     (Completed, [],
      \<lparr>touchStartTime = 0, touchStartY = 100, isTouchScrolling = True\<rparr>)"
proof -
  have a: "\<forall>ev\<in>set []. \<not> is_touchstart ev" by simp
  have b: "\<forall>ev\<in>set [TouchMove [130]]. \<not> is_touchstart ev" by simp
  have c: "has_click (interface_of full_page_browser 6)"
    by (simp add: full_page_browser_def page_browser_def has_click_def)
  have m: "moved_beyond 100 (TouchMove [130])"
    by (simp add: js_minus_exceeds_10)
  note tap = card_tap_iff_quick_and_still
            [OF a, where br = full_page_browser and link = 6 and t = 0 and y = 100
               and ys = "[]" and st = touch_initial and pre = "[]" and t' = 200]
  note scroll = card_tap_iff_quick_and_still
            [OF b, where br = full_page_browser and link = 6 and t = 0 and y = 100
               and ys = "[]" and st = touch_initial and pre = "[]" and t' = 200]
  have r1: "touch_run full_page_browser 6 touch_initial [TouchStart 0 [100]] =
      \<lparr>touchStartTime = 0, touchStartY = 100, isTouchScrolling = False\<rparr>"
    by (simp add: on_touchstart_def touch_initial_def)
  have r2: "touch_run full_page_browser 6 touch_initial [TouchStart 0 [100], TouchMove [130]] =
      \<lparr>touchStartTime = 0, touchStartY = 100, isTouchScrolling = True\<rparr>"
    using m by (simp add: on_touchstart_def on_touchmove_def touch_initial_def)
  from tap c r1 have "card_touch full_page_browser 6 (TouchEnd 200)
     (touch_run full_page_browser 6 touch_initial [TouchStart 0 [100]]) =
     (Completed, [PreventDefault, Click 6],
      \<lparr>touchStartTime = 0, touchStartY = 100, isTouchScrolling = False\<rparr>)"
    by simp
  moreover from scroll c r2 m have "card_touch full_page_browser 6 (TouchEnd 200)
       (touch_run full_page_browser 6 touch_initial [TouchStart 0 [100], TouchMove [130]]) =
     (Completed, [],
      \<lparr>touchStartTime = 0, touchStartY = 100, isTouchScrolling = True\<rparr>)"
    by simp
  ultimately show ?thesis by simp
qed

subsection \<open>Fragment links\<close>

lemma matches_fragment_link:
  "matches (Sel (Some ''a'') None (Some (StartsWith ''href'' ''#''))) e =
     (el_tag e = ''a'' \<and> (\<exists>rest. map_of (el_attrs e) ''href'' = Some (''#'' @ rest)))"
  by (auto simp: prefix_def split: option.splits)

lemma plain_fragment_query:
  "ident_start c \<Longrightarrow> list_all ident_char cs \<Longrightarrow>
   page_querySelector other doc (CHR ''#'' # c # cs) = element_by_id doc (c # cs)"
  by simp

lemma digit_fragment_query:
  "digit c \<Longrightarrow> page_querySelector other doc (CHR ''#'' # c # cs) = Invalid"
  by (auto simp: digit_def ident_start_def)

lemma element_by_id_found:
  "\<exists>e\<in>set (doc # descendants doc). map_of (el_attrs e) ''id'' = Some name \<Longrightarrow>
   \<exists>e\<in>set (doc # descendants doc).
      map_of (el_attrs e) ''id'' = Some name \<and> element_by_id doc name = Found (el_id e)"
proof -
  assume "\<exists>e\<in>set (doc # descendants doc). map_of (el_attrs e) ''id'' = Some name"
  then have "find (\<lambda>e. map_of (el_attrs e) ''id'' = Some name) (doc # descendants doc) \<noteq> None"
    unfolding find_None_iff by blast
  then obtain e where
    f: "find (\<lambda>e. map_of (el_attrs e) ''id'' = Some name) (doc # descendants doc) = Some e"
    by blast
  then obtain i where "i < length (doc # descendants doc)"
    and "map_of (el_attrs ((doc # descendants doc) ! i)) ''id'' = Some name"
    and "e = (doc # descendants doc) ! i"
    unfolding find_Some_iff by blast
  then have "e \<in> set (doc # descendants doc)" and "map_of (el_attrs e) ''id'' = Some name"
    by (metis nth_mem, metis)
  moreover from f have "element_by_id doc name = Found (el_id e)"
    unfolding element_by_id_def by simp
  ultimately show ?thesis by blast
qed

lemma element_by_id_missing:
  "\<not> (\<exists>e\<in>set (doc # descendants doc). map_of (el_attrs e) ''id'' = Some name) \<Longrightarrow>
   element_by_id doc name = NotFound"
proof -
  assume "\<not> (\<exists>e\<in>set (doc # descendants doc). map_of (el_attrs e) ''id'' = Some name)"
  then have "find (\<lambda>e. map_of (el_attrs e) ''id'' = Some name) (doc # descendants doc) = None"
    unfolding find_None_iff by blast
  then show ?thesis unfolding element_by_id_def by simp
qed

text \<open>
  C5 as stated fails: the listener hands the fragment to \<open>document.querySelector\<close>, which
  reads it as a CSS selector. On a page with an element of id \<open>7up\<close> and a link to \<open>#7up\<close>
  the link has the listener and an element matching the fragment exists, but \<open>#7up\<close> is not
  a selector: the click ends in a SyntaxError, default is not prevented and nothing is
  scrolled.
\<close>

theorem fragment_with_digit_counterexample:
  "setupSmoothScrolling digit_id_page = Inr [OnAnchorClick 1]
   \<and> element_by_id digit_id_page ''7up'' = Found 2
   \<and> on_anchor_click (page_querySelector (\<lambda>s. NotFound) digit_id_page) (Some ''#7up'') =
       (Thrown SyntaxError, [])"
  by (simp add: digit_id_page_def setupSmoothScrolling_def querySelectorAll_def
      element_by_id_def on_anchor_click_def digit_def ident_start_def)

text \<open>
  C5, amended: the click listener is installed on the \<open>a\<close> elements whose \<open>href\<close> starts with
  \<open>#\<close>. Clicked with the \<open>href\<close> exactly \<open>#\<close> it does nothing. Otherwise, when
  \<open>document.querySelector\<close>, reading the \<open>href\<close> as a selector, returns an element, the
  listener prevents default and makes exactly one call of \<open>scrollIntoView\<close> on that element,
  with behaviour smooth and block start; when it returns no element the listener neither
  prevents default nor scrolls. For a fragment that is \<open>#\<close> and a plain identifier (a
  letter or underscore, then letters, digits, underscores and hyphens) the query returns the
  first element with that id, so the listener scrolls exactly when an element with that id
  exists.
\<close>

theorem anchor_click_scrolls_iff_selected:
  "on_anchor_click (page_querySelector other doc) (Some ''#'') = (Completed, [])
   \<and> (h \<noteq> ''#'' \<longrightarrow> page_querySelector other doc h = Found target \<longrightarrow>
        on_anchor_click (page_querySelector other doc) (Some h) =
          (Completed, [PreventDefault, ScrollIntoView target ''smooth'' ''start'']))
   \<and> (h \<noteq> ''#'' \<longrightarrow> page_querySelector other doc h = NotFound \<longrightarrow>
        on_anchor_click (page_querySelector other doc) (Some h) = (Completed, []))
   \<and> (h \<noteq> ''#'' \<longrightarrow> (\<forall>target. page_querySelector other doc h \<noteq> Found target) \<longrightarrow>
        snd (on_anchor_click (page_querySelector other doc) (Some h)) = [])
   \<and> (ident_start c \<longrightarrow> list_all ident_char cs \<longrightarrow>
        (\<exists>e\<in>set (doc # descendants doc). map_of (el_attrs e) ''id'' = Some (c # cs)) \<longrightarrow>
        (\<exists>e\<in>set (doc # descendants doc).
           map_of (el_attrs e) ''id'' = Some (c # cs)
           \<and> on_anchor_click (page_querySelector other doc) (Some (CHR ''#'' # c # cs)) =
               (Completed, [PreventDefault, ScrollIntoView (el_id e) ''smooth'' ''start''])))
   \<and> (ident_start c \<longrightarrow> list_all ident_char cs \<longrightarrow>
        \<not> (\<exists>e\<in>set (doc # descendants doc). map_of (el_attrs e) ''id'' = Some (c # cs)) \<longrightarrow>
        on_anchor_click (page_querySelector other doc) (Some (CHR ''#'' # c # cs)) =
          (Completed, []))
   \<and> (setupSmoothScrolling doc = Inr ls \<longrightarrow>
        (OnAnchorClick i \<in> set ls) =
          (\<exists>e\<in>set (doc # descendants doc).
             el_id e = i \<and> el_tag e = ''a''
             \<and> (\<exists>rest. map_of (el_attrs e) ''href'' = Some (''#'' @ rest))))"
proof (intro conjI impI)
  show "on_anchor_click (page_querySelector other doc) (Some ''#'') = (Completed, [])"
    by (simp add: on_anchor_click_def)
next
  assume "h \<noteq> ''#''" "page_querySelector other doc h = Found target"
  then show "on_anchor_click (page_querySelector other doc) (Some h) =
          (Completed, [PreventDefault, ScrollIntoView target ''smooth'' ''start''])"
    by (simp add: on_anchor_click_def)
next
  assume "h \<noteq> ''#''" "page_querySelector other doc h = NotFound"
  then show "on_anchor_click (page_querySelector other doc) (Some h) = (Completed, [])"
    by (simp add: on_anchor_click_def)
next
  assume "h \<noteq> ''#''" "\<forall>target. page_querySelector other doc h \<noteq> Found target"
  then show "snd (on_anchor_click (page_querySelector other doc) (Some h)) = []"
    by (cases "page_querySelector other doc h") (simp_all add: on_anchor_click_def)
next
  assume c: "ident_start c" and cs: "list_all ident_char cs"
    and "\<exists>e\<in>set (doc # descendants doc). map_of (el_attrs e) ''id'' = Some (c # cs)"
  then obtain e where e: "e \<in> set (doc # descendants doc)"
    and i: "map_of (el_attrs e) ''id'' = Some (c # cs)"
    and f: "element_by_id doc (c # cs) = Found (el_id e)"
    using element_by_id_found [of doc "c # cs"] by blast
  have "page_querySelector other doc (CHR ''#'' # c # cs) = Found (el_id e)"
    using plain_fragment_query [OF c cs] f by simp
  then have "on_anchor_click (page_querySelector other doc) (Some (CHR ''#'' # c # cs)) =
      (Completed, [PreventDefault, ScrollIntoView (el_id e) ''smooth'' ''start''])"
    by (simp add: on_anchor_click_def del: page_querySelector.simps)
  with e i show "\<exists>e\<in>set (doc # descendants doc).
           map_of (el_attrs e) ''id'' = Some (c # cs)
           \<and> on_anchor_click (page_querySelector other doc) (Some (CHR ''#'' # c # cs)) =
               (Completed, [PreventDefault, ScrollIntoView (el_id e) ''smooth'' ''start''])"
    by blast
next
  assume c: "ident_start c" and cs: "list_all ident_char cs"
    and "\<not> (\<exists>e\<in>set (doc # descendants doc). map_of (el_attrs e) ''id'' = Some (c # cs))"
  then have f: "element_by_id doc (c # cs) = NotFound"
    by (intro element_by_id_missing)
  have "page_querySelector other doc (CHR ''#'' # c # cs) = NotFound"
    using plain_fragment_query [OF c cs] f by simp
  then show "on_anchor_click (page_querySelector other doc) (Some (CHR ''#'' # c # cs)) =
          (Completed, [])"
    by (simp add: on_anchor_click_def del: page_querySelector.simps)
next
  assume "setupSmoothScrolling doc = Inr ls"
  then have ls: "ls = map (\<lambda>link. OnAnchorClick (el_id link))
      (filter (matches (Sel (Some ''a'') None (Some (StartsWith ''href'' ''#''))))
         (doc # descendants doc))"
    by (simp add: setupSmoothScrolling_def querySelectorAll_def Let_def)
  have "(OnAnchorClick i \<in> set ls) =
      (\<exists>e\<in>set (doc # descendants doc).
         el_id e = i \<and> matches (Sel (Some ''a'') None (Some (StartsWith ''href'' ''#''))) e)"
    unfolding ls by (auto simp del: matches.simps)
  then show "(OnAnchorClick i \<in> set ls) =
          (\<exists>e\<in>set (doc # descendants doc).
             el_id e = i \<and> el_tag e = ''a''
             \<and> (\<exists>rest. map_of (el_attrs e) ''href'' = Some (''#'' @ rest)))"
    by (simp only: matches_fragment_link)
qed

text \<open>
  On the full page: the link to \<open>#section-2\<close> (element 2) has the listener and scrolls to
  the section (element 4); the link to \<open>#missing-id\<close> does nothing.
\<close>

theorem anchor_click_scrolls_iff_selected_witness:
  "(\<exists>e\<in>set (full_page # descendants full_page).
      map_of (el_attrs e) ''id'' = Some ''section-2''
      \<and> on_anchor_click (page_querySelector (\<lambda>s. NotFound) full_page) (Some ''#section-2'') =
          (Completed, [PreventDefault, ScrollIntoView (el_id e) ''smooth'' ''start'']))
   \<and> on_anchor_click (page_querySelector (\<lambda>s. NotFound) full_page) (Some ''#section-2'') =
       (Completed, [PreventDefault, ScrollIntoView 4 ''smooth'' ''start''])
   \<and> on_anchor_click (page_querySelector (\<lambda>s. NotFound) full_page) (Some ''#missing-id'') =
       (Completed, [])
   \<and> (\<exists>e\<in>set (full_page # descendants full_page).
        el_id e = 2 \<and> el_tag e = ''a''
        \<and> (\<exists>rest. map_of (el_attrs e) ''href'' = Some (''#'' @ rest)))"
proof -
  let ?qs = "page_querySelector (\<lambda>s. NotFound) full_page"
  have found: "?qs ''#section-2'' = Found 4"
    by (simp add: full_page_def element_by_id_def ident_start_def ident_char_def digit_def)
  have start: "ident_start CHR ''s''" "ident_start CHR ''m''"
    by (simp_all add: ident_start_def)
  have rest: "list_all ident_char ''ection-2''" "list_all ident_char ''issing-id''"
    by (simp_all add: ident_start_def ident_char_def digit_def)
  have there: "\<exists>e\<in>set (full_page # descendants full_page).
      map_of (el_attrs e) ''id'' = Some ''section-2''"
    by (simp add: full_page_def)
  have absent: "\<not> (\<exists>e\<in>set (full_page # descendants full_page).
      map_of (el_attrs e) ''id'' = Some ''missing-id'')"
    by (simp add: full_page_def)
  have inst: "setupSmoothScrolling full_page = Inr [OnAnchorClick 2, OnAnchorClick 3]"
    by (simp add: full_page_def setupSmoothScrolling_def querySelectorAll_def)
  have mem: "OnAnchorClick 2 \<in> set [OnAnchorClick 2, OnAnchorClick 3]" by simp
  have neq: "''#section-2'' \<noteq> ''#''" by simp
  note sec = anchor_click_scrolls_iff_selected
      [where other = "\<lambda>s. NotFound" and doc = full_page and h = "''#section-2''"
         and target = 4 and c = "CHR ''s''" and cs = "''ection-2''"
         and ls = "[OnAnchorClick 2, OnAnchorClick 3]" and i = 2]
  note mis = anchor_click_scrolls_iff_selected
      [where other = "\<lambda>s. NotFound" and doc = full_page and c = "CHR ''m''"
         and cs = "''issing-id''"]
  from sec start(1) rest(1) there
  have "\<exists>e\<in>set (full_page # descendants full_page).
      map_of (el_attrs e) ''id'' = Some ''section-2''
      \<and> on_anchor_click ?qs (Some ''#section-2'') =
          (Completed, [PreventDefault, ScrollIntoView (el_id e) ''smooth'' ''start''])"
    by blast
  moreover from sec neq found
  have "on_anchor_click ?qs (Some ''#section-2'') =
       (Completed, [PreventDefault, ScrollIntoView 4 ''smooth'' ''start''])"
    by blast
  moreover from mis start(2) rest(2) absent
  have "on_anchor_click ?qs (Some ''#missing-id'') = (Completed, [])"
    by blast
  moreover from sec inst mem
  have "\<exists>e\<in>set (full_page # descendants full_page).
        el_id e = 2 \<and> el_tag e = ''a''
        \<and> (\<exists>rest. map_of (el_attrs e) ''href'' = Some (''#'' @ rest))"
    by blast
  ultimately show ?thesis by blast
qed

subsection \<open>What the set-up installs\<close>

lemma setups_complete:
  "\<exists>lazy. setupImageLazyLoading io doc = Inr lazy"
  "\<exists>nav. setupResponsiveNavigation doc = Inr nav"
  "\<exists>smooth. setupSmoothScrolling doc = Inr smooth"
  "\<exists>cards. setupProjectCardInteractions doc = Inr cards"
  "\<exists>keys. setupKeyboardNavigation doc = Inr keys"
  "\<exists>errs. setupErrorHandling doc = Inr errs"
  by (simp_all add: setupImageLazyLoading_def setupResponsiveNavigation_def
      setupSmoothScrolling_def setupProjectCardInteractions_def setupKeyboardNavigation_def
      setupErrorHandling_def Let_def split: option.split)

lemma initializePortfolio_parts:
  "\<exists>lazy nav smooth cards keys errs.
     setupImageLazyLoading io doc = Inr lazy
     \<and> setupResponsiveNavigation doc = Inr nav
     \<and> setupSmoothScrolling doc = Inr smooth
     \<and> setupProjectCardInteractions doc = Inr cards
     \<and> setupKeyboardNavigation doc = Inr keys
     \<and> setupErrorHandling doc = Inr errs
     \<and> initializePortfolio io doc = Inr (lazy @ nav @ smooth @ cards @ keys @ errs)"
proof -
  obtain lazy nav smooth cards keys errs where parts:
    "setupImageLazyLoading io doc = Inr lazy"
    "setupResponsiveNavigation doc = Inr nav"
    "setupSmoothScrolling doc = Inr smooth"
    "setupProjectCardInteractions doc = Inr cards"
    "setupKeyboardNavigation doc = Inr keys"
    "setupErrorHandling doc = Inr errs"
    using setups_complete(1) [of io doc] setups_complete(2-6) [of doc] by blast
  then have "initializePortfolio io doc = Inr (lazy @ nav @ smooth @ cards @ keys @ errs)"
    by (simp add: initializePortfolio_def)
  with parts show ?thesis by blast
qed

lemma card_setup_grid: "OnGridKeydown item link index ids \<notin> set (card_setup c)"
  by (simp add: card_setup_def split: option.split)

lemma grid_item_setup_index:
  "OnGridKeydown item link index ids \<in> set (grid_item_setup items (i, x)) \<Longrightarrow>
   index = i \<and> ids = map el_id items"
  by (auto simp: grid_item_setup_def split: option.splits)

lemma grid_listener_index:
  assumes "initializePortfolio io doc = Inr ls"
    and "OnGridKeydown item link index ids \<in> set ls"
  shows "index < length ids"
proof -
  let ?items = "querySelectorAll doc (Sel None (Some ''grid-item'') None)"
  from assms have "OnGridKeydown item link index ids \<in>
      set (concat (map (grid_item_setup ?items) (enumerate 0 ?items)))"
    by (auto simp: initializePortfolio_def setupImageLazyLoading_def
        setupResponsiveNavigation_def setupSmoothScrolling_def setupProjectCardInteractions_def
        setupKeyboardNavigation_def setupErrorHandling_def Let_def card_setup_grid
        split: option.splits if_splits)
  then obtain i x where ix: "(i, x) \<in> set (enumerate 0 ?items)"
    and "OnGridKeydown item link index ids \<in> set (grid_item_setup ?items (i, x))"
    by auto
  then have "index = i" and "ids = map el_id ?items"
    using grid_item_setup_index by blast+
  moreover from ix have "i < length ?items"
    by (simp add: in_set_enumerate_eq)
  ultimately show ?thesis by simp
qed

lemma card_listeners_installed:
  assumes "initializePortfolio io doc = Inr ls"
    and "c \<in> set (querySelectorAll doc (Sel None (Some ''project-card'') None))"
    and "querySelector_in c (Sel None (Some ''project-link'') None) = Some l"
  shows "set [OnCardKeydown (el_id c) (el_id l), OnCardTouchstart (el_id c),
              OnCardTouchmove (el_id c), OnCardTouchend (el_id c) (el_id l)] \<subseteq> set ls"
proof -
  have "set (card_setup c) \<subseteq> set ls"
    using assms(1,2)
    by (auto simp: initializePortfolio_def setupImageLazyLoading_def
        setupResponsiveNavigation_def setupSmoothScrolling_def setupProjectCardInteractions_def
        setupKeyboardNavigation_def setupErrorHandling_def Let_def
        split: option.splits if_splits)
  then show ?thesis using assms(3) by (simp add: card_setup_def)
qed

lemma scroll_listener_installed:
  "initializePortfolio io doc = Inr ls \<Longrightarrow>
   querySelector doc (Sel None (Some ''header'') None) = Some h \<Longrightarrow>
   OnScroll (el_id h) \<in> set ls"
  by (auto simp: initializePortfolio_def setupImageLazyLoading_def
        setupResponsiveNavigation_def setupSmoothScrolling_def setupProjectCardInteractions_def
        setupKeyboardNavigation_def setupErrorHandling_def Let_def
        split: option.splits if_splits)

lemma grid_item_setup_installed:
  assumes "initializePortfolio io doc = Inr ls"
    and "n < length (querySelectorAll doc (Sel None (Some ''grid-item'') None))"
  shows "set (grid_item_setup (querySelectorAll doc (Sel None (Some ''grid-item'') None))
           (n, querySelectorAll doc (Sel None (Some ''grid-item'') None) ! n)) \<subseteq> set ls"
proof -
  let ?items = "querySelectorAll doc (Sel None (Some ''grid-item'') None)"
  have "(n, ?items ! n) \<in> set (enumerate 0 ?items)"
    using assms(2) by (simp add: in_set_enumerate_eq)
  then have "set (grid_item_setup ?items (n, ?items ! n))
      \<subseteq> set (concat (map (grid_item_setup ?items) (enumerate 0 ?items)))"
    by auto
  moreover have "0 < length ?items"
    using assms(2) by (cases ?items) simp_all
  ultimately have "\<exists>keys. setupKeyboardNavigation doc = Inr keys
      \<and> set (grid_item_setup ?items (n, ?items ! n)) \<subseteq> set keys"
    by (auto simp: setupKeyboardNavigation_def Let_def)
  then obtain keys where k: "setupKeyboardNavigation doc = Inr keys"
    and m: "set (grid_item_setup ?items (n, ?items ! n)) \<subseteq> set keys"
    by blast
  obtain lazy nav smooth cards keys' errs where
    "setupKeyboardNavigation doc = Inr keys'"
    "initializePortfolio io doc = Inr (lazy @ nav @ smooth @ cards @ keys' @ errs)"
    using initializePortfolio_parts [of io doc] by blast
  with k m assms(1) show ?thesis by auto
qed

lemma grid_listener_installed:
  assumes "initializePortfolio io doc = Inr ls"
    and "n < length (querySelectorAll doc (Sel None (Some ''grid-item'') None))"
    and "querySelector_in (querySelectorAll doc (Sel None (Some ''grid-item'') None) ! n)
           (Sel None (Some ''grid-link'') None) = Some l"
  shows "OnGridKeydown
           (el_id (querySelectorAll doc (Sel None (Some ''grid-item'') None) ! n)) (el_id l)
           n (map el_id (querySelectorAll doc (Sel None (Some ''grid-item'') None)))
         \<in> set ls"
  using grid_item_setup_installed [OF assms(1,2)] assms(3)
  by (simp add: grid_item_setup_def)

lemma grid_tabindex_installed:
  assumes "initializePortfolio io doc = Inr ls"
    and "n < length (querySelectorAll doc (Sel None (Some ''grid-item'') None))"
    and "querySelector_in (querySelectorAll doc (Sel None (Some ''grid-item'') None) ! n)
           (Sel None (Some ''grid-link'') None) = Some l"
  shows "tabindex_after doc ls
           (el_id (querySelectorAll doc (Sel None (Some ''grid-item'') None) ! n)) = Some ''0''"
  using grid_item_setup_installed [OF assms(1,2)] assms(3)
  by (simp add: grid_item_setup_def tabindex_after_def)

lemma document_keydown_installed:
  "initializePortfolio io doc = Inr ls \<Longrightarrow> OnDocumentKeydown \<in> set ls"
  by (auto simp: initializePortfolio_def setupImageLazyLoading_def
        setupResponsiveNavigation_def setupSmoothScrolling_def setupProjectCardInteractions_def
        setupKeyboardNavigation_def setupErrorHandling_def Let_def
        split: option.splits if_splits)

text \<open>What the set-up installs on the example pages.\<close>

lemma bare_page_init:
  "initializePortfolio True bare_page = Inr [OnAnchorClick 3, OnDocumentKeydown, OnImageError 4]"
  by (simp add: initializePortfolio_def setupImageLazyLoading_def
        setupResponsiveNavigation_def setupSmoothScrolling_def setupProjectCardInteractions_def
        setupKeyboardNavigation_def setupErrorHandling_def card_setup_def grid_item_setup_def
        querySelectorAll_def querySelector_def querySelector_in_def bare_page_def
        enumerate_eq_zip sublist_Cons_right)

lemma full_page_init:
  "initializePortfolio True full_page = Inr full_page_installed"
  by (simp add: full_page_installed_def initializePortfolio_def setupImageLazyLoading_def
        setupResponsiveNavigation_def setupSmoothScrolling_def setupProjectCardInteractions_def
        setupKeyboardNavigation_def setupErrorHandling_def card_setup_def grid_item_setup_def
        querySelectorAll_def querySelector_def querySelector_in_def full_page_def
        enumerate_eq_zip sublist_Cons_right)

lemma grid_page_init:
  "initializePortfolio True grid_page = Inr grid_page_installed"
  by (simp add: grid_page_installed_def initializePortfolio_def setupImageLazyLoading_def
        setupResponsiveNavigation_def setupSmoothScrolling_def setupProjectCardInteractions_def
        setupKeyboardNavigation_def setupErrorHandling_def card_setup_def grid_item_setup_def
        querySelectorAll_def querySelector_def querySelector_in_def grid_page_def
        enumerate_eq_zip sublist_Cons_right)

subsection \<open>Arrow keys on the grid\<close>

lemma focus_item_in_range:
  "i < length gridItems \<Longrightarrow>
   focus_item br gridItems (int i) active =
     (if has_focus (interface_of br (gridItems ! i))
      then (Completed, [PreventDefault, Focus (gridItems ! i)],
            if focusable br (gridItems ! i) then Some (gridItems ! i) else active)
      else (Thrown TypeError, [PreventDefault], active))"
  by (simp add: focus_item_def call_focus_def)

lemma on_grid_keydown_right:
  "on_grid_keydown br gridItems index link ''ArrowRight'' active =
     (if index + 1 < length gridItems
      then (if has_focus (interface_of br (gridItems ! (index + 1)))
            then (Completed, [PreventDefault, Focus (gridItems ! (index + 1))],
                  if focusable br (gridItems ! (index + 1))
                  then Some (gridItems ! (index + 1)) else active)
            else (Thrown TypeError, [PreventDefault], active))
      else (Completed, [], active))"
proof (cases "index + 1 < length gridItems")
  case True
  then have g: "int index < int (length gridItems) - 1" by linarith
  have i: "int index + 1 = int (index + 1)" by simp
  show ?thesis
    using True g unfolding on_grid_keydown_def i focus_item_in_range [OF True]
    by simp
next
  case False
  then have "\<not> int index < int (length gridItems) - 1" by linarith
  then show ?thesis using False by (simp add: on_grid_keydown_def)
qed

lemma on_grid_keydown_left:
  assumes "index < length gridItems"
  shows "on_grid_keydown br gridItems index link ''ArrowLeft'' active =
     (if 0 < index
      then (if has_focus (interface_of br (gridItems ! (index - 1)))
            then (Completed, [PreventDefault, Focus (gridItems ! (index - 1))],
                  if focusable br (gridItems ! (index - 1))
                  then Some (gridItems ! (index - 1)) else active)
            else (Thrown TypeError, [PreventDefault], active))
      else (Completed, [], active))"
proof (cases "0 < index")
  case True
  with assms have r: "index - 1 < length gridItems" by simp
  from True have i: "int index - 1 = int (index - 1)" by simp
  show ?thesis
    using True unfolding on_grid_keydown_def i focus_item_in_range [OF r]
    by simp
next
  case False
  then show ?thesis by (simp add: on_grid_keydown_def)
qed

lemma focusable_with_tabindex_0:
  "usable br el \<Longrightarrow> tabindex_of br el = Some ''0'' \<Longrightarrow> focusable br el"
  by (simp add: focusable_def parses_as_integer_def ascii_space_def digit_def)

text \<open>
  C7 as stated fails in two places. On the full page the three grid items are 9, 11 and
  12, and item 11 has no link, so the set-up gave it no \<open>tabindex\<close>: ArrowRight on item 9
  prevents default and calls \<open>focus()\<close> on item 11, but focus stays on item 9. And at the
  edges (ArrowRight on the last item, ArrowLeft on the first) the listener makes no call
  at all, so default is not prevented there.
\<close>

theorem grid_arrow_counterexample:
  "on_grid_keydown full_page_browser [9, 11, 12] 0 10 ''ArrowRight'' (Some 9) =
     (Completed, [PreventDefault, Focus 11], Some 9)
   \<and> on_grid_keydown full_page_browser [9, 11, 12] 2 13 ''ArrowRight'' (Some 12) =
     (Completed, [], Some 12)
   \<and> on_grid_keydown full_page_browser [9, 11, 12] 0 10 ''ArrowLeft'' (Some 9) =
     (Completed, [], Some 9)"
proof -
  have "\<not> focusable full_page_browser 11"
    by (simp add: focusable_def full_page_browser_def page_browser_def tabindex_after_def
        full_page_installed_def full_page_def)
  moreover have "has_focus (interface_of full_page_browser 11)"
    by (simp add: full_page_browser_def page_browser_def has_focus_def)
  ultimately show ?thesis
    by (simp add: on_grid_keydown_right on_grid_keydown_left)
qed

text \<open>
  C7, amended: on the grid item at position \<open>index\<close> of the items in document order,
  ArrowRight on an item that is not the last prevents default and calls \<open>focus()\<close> on the
  next item, and ArrowLeft on an item that is not the first does so on the previous item;
  the call moves focus to that item exactly when it is focusable, and leaves focus where it
  is otherwise (an item that has no \<open>focus()\<close> at all ends the listener in a TypeError). An
  item containing an activation link has \<open>tabindex\<close> 0 after the set-up and is focusable
  when it is usable, so between two such items the key moves focus. ArrowRight on the last
  item and ArrowLeft on the first leave focus unchanged and do not prevent default.
\<close>

theorem grid_arrow_keys:
  "(index < length gridItems \<longrightarrow>
      on_grid_keydown br gridItems index link ''ArrowRight'' active =
        (if index + 1 < length gridItems
         then (if has_focus (interface_of br (gridItems ! (index + 1)))
               then (Completed, [PreventDefault, Focus (gridItems ! (index + 1))],
                     if focusable br (gridItems ! (index + 1))
                     then Some (gridItems ! (index + 1)) else active)
               else (Thrown TypeError, [PreventDefault], active))
         else (Completed, [], active))
      \<and> on_grid_keydown br gridItems index link ''ArrowLeft'' active =
        (if 0 < index
         then (if has_focus (interface_of br (gridItems ! (index - 1)))
               then (Completed, [PreventDefault, Focus (gridItems ! (index - 1))],
                     if focusable br (gridItems ! (index - 1))
                     then Some (gridItems ! (index - 1)) else active)
               else (Thrown TypeError, [PreventDefault], active))
         else (Completed, [], active)))
   \<and> (usable br el \<longrightarrow> tabindex_of br el = Some ''0'' \<longrightarrow> focusable br el)
   \<and> (initializePortfolio io doc = Inr ls \<longrightarrow>
        n < length (querySelectorAll doc (Sel None (Some ''grid-item'') None)) \<longrightarrow>
        querySelector_in (querySelectorAll doc (Sel None (Some ''grid-item'') None) ! n)
          (Sel None (Some ''grid-link'') None) = Some l \<longrightarrow>
        tabindex_after doc ls
          (el_id (querySelectorAll doc (Sel None (Some ''grid-item'') None) ! n)) = Some ''0''
        \<and> (tabindex_of br
              (el_id (querySelectorAll doc (Sel None (Some ''grid-item'') None) ! n)) =
            tabindex_after doc ls
              (el_id (querySelectorAll doc (Sel None (Some ''grid-item'') None) ! n)) \<longrightarrow>
            usable br (el_id (querySelectorAll doc (Sel None (Some ''grid-item'') None) ! n))
              \<longrightarrow>
            has_focus (interface_of br
              (el_id (querySelectorAll doc (Sel None (Some ''grid-item'') None) ! n))) \<longrightarrow>
            (n = index + 1 \<longrightarrow>
               on_grid_keydown br
                 (map el_id (querySelectorAll doc (Sel None (Some ''grid-item'') None)))
                 index link ''ArrowRight'' active =
               (Completed,
                [PreventDefault,
                 Focus (el_id (querySelectorAll doc (Sel None (Some ''grid-item'') None) ! n))],
                Some (el_id (querySelectorAll doc (Sel None (Some ''grid-item'') None) ! n))))
            \<and> (index = n + 1 \<longrightarrow>
               index < length (querySelectorAll doc (Sel None (Some ''grid-item'') None)) \<longrightarrow>
               on_grid_keydown br
                 (map el_id (querySelectorAll doc (Sel None (Some ''grid-item'') None)))
                 index link ''ArrowLeft'' active =
               (Completed,
                [PreventDefault,
                 Focus (el_id (querySelectorAll doc (Sel None (Some ''grid-item'') None) ! n))],
                Some (el_id (querySelectorAll doc (Sel None (Some ''grid-item'') None) ! n))))))"
proof (intro conjI impI)
  assume "index < length gridItems"
  then show "on_grid_keydown br gridItems index link ''ArrowLeft'' active =
        (if 0 < index
         then (if has_focus (interface_of br (gridItems ! (index - 1)))
               then (Completed, [PreventDefault, Focus (gridItems ! (index - 1))],
                     if focusable br (gridItems ! (index - 1))
                     then Some (gridItems ! (index - 1)) else active)
               else (Thrown TypeError, [PreventDefault], active))
         else (Completed, [], active))"
    by (rule on_grid_keydown_left)
next
  show "on_grid_keydown br gridItems index link ''ArrowRight'' active =
        (if index + 1 < length gridItems
         then (if has_focus (interface_of br (gridItems ! (index + 1)))
               then (Completed, [PreventDefault, Focus (gridItems ! (index + 1))],
                     if focusable br (gridItems ! (index + 1))
                     then Some (gridItems ! (index + 1)) else active)
               else (Thrown TypeError, [PreventDefault], active))
         else (Completed, [], active))"
    by (rule on_grid_keydown_right)
next
  assume "usable br el" "tabindex_of br el = Some ''0''"
  then show "focusable br el" by (rule focusable_with_tabindex_0)
next
  let ?items = "querySelectorAll doc (Sel None (Some ''grid-item'') None)"
  assume init: "initializePortfolio io doc = Inr ls"
    and n: "n < length ?items"
    and l: "querySelector_in (?items ! n) (Sel None (Some ''grid-link'') None) = Some l"
  show t: "tabindex_after doc ls (el_id (?items ! n)) = Some ''0''"
    using init n l by (rule grid_tabindex_installed)
  assume same: "tabindex_of br (el_id (?items ! n)) = tabindex_after doc ls (el_id (?items ! n))"
    and u: "usable br (el_id (?items ! n))"
    and hf: "has_focus (interface_of br (el_id (?items ! n)))"
  have f: "focusable br (el_id (?items ! n))"
    using u same t by (simp add: focusable_with_tabindex_0)
  {
    assume e: "n = index + 1"
    have "on_grid_keydown br (map el_id ?items) index link ''ArrowRight'' active =
        (Completed, [PreventDefault, Focus (el_id (?items ! (index + 1)))],
         Some (el_id (?items ! (index + 1))))"
      using n f hf unfolding e on_grid_keydown_right by simp
    then show "on_grid_keydown br (map el_id ?items) index link ''ArrowRight'' active =
        (Completed, [PreventDefault, Focus (el_id (?items ! n))], Some (el_id (?items ! n)))"
      by (simp add: e)
  }
  {
    assume e: "index = n + 1" and i: "index < length ?items"
    then have "index < length (map el_id ?items)" by simp
    from on_grid_keydown_left [OF this, of br link active]
    show "on_grid_keydown br (map el_id ?items) index link ''ArrowLeft'' active =
        (Completed, [PreventDefault, Focus (el_id (?items ! n))], Some (el_id (?items ! n)))"
      using n f hf by (simp add: e)
  }
qed

text \<open>
  On the page of five grid items, each with a link, ArrowRight on the second item moves
  focus to the third (element 5) and ArrowLeft on it moves focus to the first (element 1).
\<close>

theorem grid_arrow_keys_witness:
  "on_grid_keydown grid_page_browser [1, 3, 5, 7, 9] 1 4 ''ArrowRight'' (Some 3) =
     (Completed, [PreventDefault, Focus 5], Some 5)
   \<and> on_grid_keydown grid_page_browser [1, 3, 5, 7, 9] 1 4 ''ArrowLeft'' (Some 3) =
     (Completed, [PreventDefault, Focus 1], Some 1)
   \<and> tabindex_after grid_page grid_page_installed 5 = Some ''0''
   \<and> focusable grid_page_browser 5"
proof -
  let ?sel = "Sel None (Some ''grid-item'') None"
  have items: "querySelectorAll grid_page ?sel =
      [Elem 1 ''div'' [''grid-item''] [] [Elem 2 ''a'' [''grid-link''] [(''href'', ''1.html'')] []],
       Elem 3 ''div'' [''grid-item''] [] [Elem 4 ''a'' [''grid-link''] [(''href'', ''2.html'')] []],
       Elem 5 ''div'' [''grid-item''] [] [Elem 6 ''a'' [''grid-link''] [(''href'', ''3.html'')] []],
       Elem 7 ''div'' [''grid-item''] [] [Elem 8 ''a'' [''grid-link''] [(''href'', ''4.html'')] []],
       Elem 9 ''div'' [''grid-item''] [] [Elem 10 ''a'' [''grid-link''] [(''href'', ''5.html'')] []]]"
    by (simp add: querySelectorAll_def grid_page_def)
  note right = grid_arrow_keys
      [where br = grid_page_browser and index = 1 and link = 4 and active = "Some 3"
         and io = True and doc = grid_page and ls = grid_page_installed and n = 2
         and l = "Elem 6 ''a'' [''grid-link''] [(''href'', ''3.html'')] []" and el = 5]
  note left = grid_arrow_keys
      [where br = grid_page_browser and index = 1 and link = 4 and active = "Some 3"
         and io = True and doc = grid_page and ls = grid_page_installed and n = 0
         and l = "Elem 2 ''a'' [''grid-link''] [(''href'', ''1.html'')] []"]
  have u: "usable grid_page_browser x" for x
    by (simp add: grid_page_browser_def page_browser_def)
  have hf: "has_focus (interface_of grid_page_browser x)" for x
    by (simp add: grid_page_browser_def page_browser_def has_focus_def)
  have same: "tabindex_of grid_page_browser x = tabindex_after grid_page grid_page_installed x" for x
    by (simp add: grid_page_browser_def page_browser_def)
  have r: "on_grid_keydown grid_page_browser [1, 3, 5, 7, 9] 1 4 ''ArrowRight'' (Some 3) =
     (Completed, [PreventDefault, Focus 5], Some 5)"
    and t: "tabindex_after grid_page grid_page_installed 5 = Some ''0''"
    using right grid_page_init u hf same by (simp_all add: items querySelector_in_def)
  have l: "on_grid_keydown grid_page_browser [1, 3, 5, 7, 9] 1 4 ''ArrowLeft'' (Some 3) =
     (Completed, [PreventDefault, Focus 1], Some 1)"
    using left grid_page_init u hf same by (simp add: items querySelector_in_def)
  have f: "focusable grid_page_browser 5"
    using right u [of 5] same [of 5] t by simp
  from r l t f show ?thesis by simp
qed

subsection \<open>Images that fail to load\<close>

lemma img_errors_attached:
  "siblings this = Some (before, after) \<Longrightarrow>
   img_errors n this =
     \<lparr>display = (if n = 0 then display this else ''none''),
      siblings = Some (before @ replicate n (Placeholder image_placeholder), after)\<rparr>"
proof (induction n arbitrary: this before)
  case 0
  then show ?case by simp
next
  case (Suc n)
  let ?next = "snd (on_img_error this)"
  have s: "siblings ?next = Some (before @ [Placeholder image_placeholder], after)"
    and d: "display ?next = ''none''"
    using Suc.prems by (simp_all add: on_img_error_def)
  show ?case
    using Suc.IH [OF s] d by (simp add: replicate_app_Cons_same)
qed

text \<open>
  C4 as stated fails: the listener has no guard, so two error events on the same image
  (between nodes 1 and 3 of its parent) leave two placeholders before it.
\<close>

theorem img_error_twice_counterexample:
  "img_errors 2 \<lparr>display = ''block'', siblings = Some ([Other 1], [Other 3])\<rparr> =
     \<lparr>display = ''none'',
      siblings = Some ([Other 1, Placeholder image_placeholder, Placeholder image_placeholder],
                       [Other 3])\<rparr>
   \<and> length (filter is_placeholder
        [Other 1, Placeholder image_placeholder, Placeholder image_placeholder]) = 2"
  by (simp add: on_img_error_def is_placeholder_def numeral_2_eq_2)

text \<open>
  C4, amended: every error event delivered to an image that has a parent hides the image
  and inserts exactly one placeholder with the text "Image Unavailable" immediately before
  it; so \<open>n\<close> error events leave \<open>n\<close> placeholders before the image, at most one only when at
  most one error event is delivered.
\<close>

theorem img_error_one_placeholder_per_event:
  assumes "siblings this = Some (before, after)"
  shows
    "on_img_error this =
       (Completed,
        \<lparr>display = ''none'',
         siblings = Some (before @ [Placeholder image_placeholder], after)\<rparr>)
     \<and> ph_textContent image_placeholder = ''Image Unavailable''
     \<and> img_errors n this =
         \<lparr>display = (if n = 0 then display this else ''none''),
          siblings = Some (before @ replicate n (Placeholder image_placeholder), after)\<rparr>
     \<and> length (filter is_placeholder (before @ replicate n (Placeholder image_placeholder))) =
         length (filter is_placeholder before) + n"
proof -
  have "on_img_error this =
       (Completed,
        \<lparr>display = ''none'',
         siblings = Some (before @ [Placeholder image_placeholder], after)\<rparr>)"
    using assms by (cases this) (simp add: on_img_error_def)
  moreover have "ph_textContent image_placeholder = ''Image Unavailable''"
    by (simp add: image_placeholder_def)
  moreover note img_errors_attached [OF assms, of n]
  moreover have
    "length (filter is_placeholder (before @ replicate n (Placeholder image_placeholder))) =
       length (filter is_placeholder before) + n"
    by (simp add: is_placeholder_def)
  ultimately show ?thesis by blast
qed

theorem img_error_one_placeholder_per_event_witness:
  "on_img_error \<lparr>display = ''block'', siblings = Some ([Other 1], [Other 3])\<rparr> =
     (Completed,
      \<lparr>display = ''none'',
       siblings = Some ([Other 1, Placeholder image_placeholder], [Other 3])\<rparr>)
   \<and> img_errors 3 \<lparr>display = ''block'', siblings = Some ([Other 1], [Other 3])\<rparr> =
     \<lparr>display = ''none'',
      siblings = Some ([Other 1, Placeholder image_placeholder, Placeholder image_placeholder,
                        Placeholder image_placeholder], [Other 3])\<rparr>"
proof -
  have "siblings \<lparr>display = ''block'', siblings = Some ([Other 1], [Other 3])\<rparr> =
      Some ([Other 1], [Other 3])" by simp
  from img_error_one_placeholder_per_event [OF this, of 3]
  show ?thesis by (simp add: numeral_3_eq_3 on_img_error_def is_placeholder_def)
qed

subsection \<open>PDF links\<close>

lemma pdf_selector:
  "matches (Sel (Some ''a'') None (Some (Contains ''href'' ''.pdf''))) e =
     (el_tag e = ''a''
      \<and> (\<exists>pre post. map_of (el_attrs e) ''href'' = Some (pre @ ''.pdf'' @ post)))"
  by (auto simp: sublist_def split: option.splits)

lemma suffix_contains: "suffix ''.pdf'' p \<Longrightarrow> p = takeWhile P h \<Longrightarrow> \<exists>pre post. h = pre @ ''.pdf'' @ post"
proof -
  assume "suffix ''.pdf'' p" and p: "p = takeWhile P h"
  then obtain pre where "p = pre @ ''.pdf''" by (auto simp: suffix_def)
  with p have "h = pre @ ''.pdf'' @ dropWhile P h"
    by (metis append.assoc takeWhile_dropWhile_id)
  then show ?thesis by blast
qed

text \<open>
  C3 as stated fails: the selector is \<open>a[href*=".pdf"]\<close>, so a link to
  \<open>docs.pdf/index.html\<close>, whose path does not end in \<open>.pdf\<close>, gets the listener.
\<close>

theorem pdf_link_counterexample:
  "setupErrorHandling
     (Elem 0 ''body'' [] [] [Elem 1 ''a'' [] [(''href'', ''docs.pdf/index.html'')] []]) =
     Inr [OnPdfClick 1]
   \<and> \<not> spec_path_ends_in_pdf ''docs.pdf/index.html''"
  by (simp add: setupErrorHandling_def querySelectorAll_def spec_path_ends_in_pdf_def
      href_path_def suffix_to_prefix sublist_Cons_right)

text \<open>
  C3, amended: the loading indicator is attached to an \<open>a\<close> element exactly when its \<open>href\<close>
  attribute contains \<open>.pdf\<close> anywhere; every link whose path ends in \<open>.pdf\<close> is among
  them, and so are links whose \<open>href\<close> contains \<open>.pdf\<close> elsewhere. A click replaces the text
  by "Loading..." and sets a timer that puts the text back 1000 ms later.
\<close>

theorem pdf_listener_iff_href_contains:
  "(setupErrorHandling doc = Inr ls \<longrightarrow>
      (OnPdfClick i \<in> set ls) =
        (\<exists>e\<in>set (doc # descendants doc).
           el_id e = i \<and> el_tag e = ''a''
           \<and> (\<exists>pre post. map_of (el_attrs e) ''href'' = Some (pre @ ''.pdf'' @ post))))
   \<and> (spec_path_ends_in_pdf h \<longrightarrow> (\<exists>pre post. h = pre @ ''.pdf'' @ post))
   \<and> on_pdf_click now \<lparr>link_text = label, timers = []\<rparr> =
       \<lparr>link_text = ''Loading...'', timers = [(now + 1000, label)]\<rparr>
   \<and> (t < now + 1000 \<longrightarrow>
        link_text (run_timers t (on_pdf_click now \<lparr>link_text = label, timers = []\<rparr>)) =
          ''Loading...'')
   \<and> (now + 1000 \<le> t \<longrightarrow>
        run_timers t (on_pdf_click now \<lparr>link_text = label, timers = []\<rparr>) =
          \<lparr>link_text = label, timers = []\<rparr>)"
proof (intro conjI impI)
  assume "setupErrorHandling doc = Inr ls"
  then have ls: "ls =
      map (\<lambda>img. OnImageError (el_id img))
        (filter (matches (Sel (Some ''img'') None None)) (doc # descendants doc))
      @ map (\<lambda>link. OnPdfClick (el_id link))
        (filter (matches (Sel (Some ''a'') None (Some (Contains ''href'' ''.pdf''))))
           (doc # descendants doc))"
    by (simp add: setupErrorHandling_def querySelectorAll_def Let_def)
  have "(OnPdfClick i \<in> set ls) =
      (\<exists>e\<in>set (doc # descendants doc).
         el_id e = i \<and> matches (Sel (Some ''a'') None (Some (Contains ''href'' ''.pdf''))) e)"
    unfolding ls by (auto simp del: matches.simps)
  then show "(OnPdfClick i \<in> set ls) =
        (\<exists>e\<in>set (doc # descendants doc).
           el_id e = i \<and> el_tag e = ''a''
           \<and> (\<exists>pre post. map_of (el_attrs e) ''href'' = Some (pre @ ''.pdf'' @ post)))"
    by (simp only: pdf_selector)
next
  assume "spec_path_ends_in_pdf h"
  then show "\<exists>pre post. h = pre @ ''.pdf'' @ post"
    unfolding spec_path_ends_in_pdf_def href_path_def by (rule suffix_contains) simp
next
  show "on_pdf_click now \<lparr>link_text = label, timers = []\<rparr> =
       \<lparr>link_text = ''Loading...'', timers = [(now + 1000, label)]\<rparr>"
    by (simp add: on_pdf_click_def)
next
  assume "t < now + 1000"
  then show "link_text (run_timers t (on_pdf_click now \<lparr>link_text = label, timers = []\<rparr>)) =
          ''Loading...''"
    by (simp add: on_pdf_click_def run_timers_def)
next
  assume "now + 1000 \<le> t"
  then show "run_timers t (on_pdf_click now \<lparr>link_text = label, timers = []\<rparr>) =
          \<lparr>link_text = label, timers = []\<rparr>"
    by (simp add: on_pdf_click_def run_timers_def)
qed

text \<open>
  On the full page the link to \<open>docs.pdf/index.html\<close> (element 15) has the listener;
  \<open>resume.pdf?v=2\<close> has a path ending in \<open>.pdf\<close>.
\<close>

theorem pdf_listener_iff_href_contains_witness:
  "(\<exists>e\<in>set (full_page # descendants full_page).
      el_id e = 15 \<and> el_tag e = ''a''
      \<and> (\<exists>pre post. map_of (el_attrs e) ''href'' = Some (pre @ ''.pdf'' @ post)))
   \<and> (\<exists>pre post. ''resume.pdf?v=2'' = pre @ ''.pdf'' @ post)
   \<and> link_text (run_timers 999 (on_pdf_click 0 \<lparr>link_text = ''Resume'', timers = []\<rparr>)) =
       ''Loading...''
   \<and> run_timers 1000 (on_pdf_click 0 \<lparr>link_text = ''Resume'', timers = []\<rparr>) =
       \<lparr>link_text = ''Resume'', timers = []\<rparr>"
proof -
  have inst: "setupErrorHandling full_page = Inr [OnImageError 8, OnPdfClick 14, OnPdfClick 15]"
    by (simp add: full_page_def setupErrorHandling_def querySelectorAll_def sublist_Cons_right)
  have path: "spec_path_ends_in_pdf ''resume.pdf?v=2''"
    by (simp add: spec_path_ends_in_pdf_def href_path_def suffix_to_prefix)
  note early = pdf_listener_iff_href_contains
            [of full_page "[OnImageError 8, OnPdfClick 14, OnPdfClick 15]" 15
                "''resume.pdf?v=2''" 0 "''Resume''" 999]
  note late = pdf_listener_iff_href_contains
            [of full_page "[OnImageError 8, OnPdfClick 14, OnPdfClick 15]" 15
                "''resume.pdf?v=2''" 0 "''Resume''" 1000]
  have mem: "OnPdfClick 15 \<in> set [OnImageError 8, OnPdfClick 14, OnPdfClick 15]"
    by simp
  have before: "(999::int) < 0 + 1000" and after: "(0::int) + 1000 \<le> 1000"
    by simp_all
  from early inst mem have "\<exists>e\<in>set (full_page # descendants full_page).
      el_id e = 15 \<and> el_tag e = ''a''
      \<and> (\<exists>pre post. map_of (el_attrs e) ''href'' = Some (pre @ ''.pdf'' @ post))"
    by blast
  moreover from early path have "\<exists>pre post. ''resume.pdf?v=2'' = pre @ ''.pdf'' @ post"
    by blast
  moreover from early before
  have "link_text (run_timers 999 (on_pdf_click 0 \<lparr>link_text = ''Resume'', timers = []\<rparr>)) =
       ''Loading...''"
    by blast
  moreover from late after
  have "run_timers 1000 (on_pdf_click 0 \<lparr>link_text = ''Resume'', timers = []\<rparr>) =
       \<lparr>link_text = ''Resume'', timers = []\<rparr>"
    by blast
  ultimately show ?thesis by blast
qed


subsection \<open>Lazy images\<close>

lemma on_entry_miss: "entry \<noteq> (i, True) \<Longrightarrow> imgs (on_entry entry st) i = imgs st i"
  by (cases entry) (auto simp: on_entry_def)

lemma on_entry_falsy:
  "\<not> truthy (data_src (imgs st i)) \<Longrightarrow> imgs (on_entry entry st) i = imgs st i"
  by (cases entry) (auto simp: on_entry_def)

lemma on_entry_unwatched: "\<not> watching st i \<Longrightarrow> \<not> watching (on_entry entry st) i"
  by (cases entry) (auto simp: on_entry_def watching_def split: option.splits)

lemma on_entry_hit:
  "truthy (data_src (imgs st i)) \<Longrightarrow>
   imgs (on_entry (i, True) st) i =
     \<lparr>src = data_src (imgs st i), data_src = None,
      classList = removeAll ''lazy'' (classList (imgs st i))\<rparr>
   \<and> \<not> watching (on_entry (i, True) st) i"
  by (auto simp: on_entry_def watching_def split: option.splits)

lemma io_callback_loaded:
  "\<not> truthy (data_src (imgs st i)) \<Longrightarrow> \<not> watching st i \<Longrightarrow>
   imgs (fold on_entry entries st) i = imgs st i \<and> \<not> watching (fold on_entry entries st) i"
proof (induction entries arbitrary: st)
  case Nil
  then show ?case by simp
next
  case (Cons entry entries)
  have same: "imgs (on_entry entry st) i = imgs st i"
    using Cons.prems(1) by (rule on_entry_falsy)
  have "\<not> truthy (data_src (imgs (on_entry entry st) i))"
    using Cons.prems(1) by (simp add: same)
  moreover have "\<not> watching (on_entry entry st) i"
    using Cons.prems(2) by (rule on_entry_unwatched)
  ultimately show ?case
    using Cons.IH [of "on_entry entry st"] same by simp
qed

lemma io_callback_loads:
  "truthy (data_src (imgs st i)) \<Longrightarrow> (i, True) \<in> set entries \<Longrightarrow>
   imgs (fold on_entry entries st) i =
     \<lparr>src = data_src (imgs st i), data_src = None,
      classList = removeAll ''lazy'' (classList (imgs st i))\<rparr>
   \<and> \<not> watching (fold on_entry entries st) i"
proof (induction entries arbitrary: st)
  case Nil
  then show ?case by simp
next
  case (Cons entry entries)
  show ?case
  proof (cases "entry = (i, True)")
    case True
    note hit = on_entry_hit [OF Cons.prems(1)]
    have "\<not> truthy (data_src (imgs (on_entry (i, True) st) i))"
      using hit by (simp add: truthy_def)
    from io_callback_loaded [OF this, of entries] hit
    show ?thesis using True by simp
  next
    case False
    then have same: "imgs (on_entry entry st) i = imgs st i"
      by (rule on_entry_miss)
    from False Cons.prems(2) have "(i, True) \<in> set entries" by auto
    moreover have "truthy (data_src (imgs (on_entry entry st) i))"
      using Cons.prems(1) by (simp add: same)
    ultimately show ?thesis
      using Cons.IH [of "on_entry entry st"] same by simp
  qed
qed

text \<open>
  C6 as stated fails for an image whose \<open>data-src\<close> attribute is the empty string: the
  callback tests \<open>img.dataset.src\<close> for truth, so the watched image 8, reported visible,
  keeps its attributes and its class and stays observed.
\<close>

theorem lazy_empty_source_counterexample:
  "imgs (intersections [(8, True)]
           \<lparr>imgs = (\<lambda>i. \<lparr>src = None, data_src = Some '''', classList = [''lazy'']\<rparr>),
            observer = Some [8]\<rparr>) 8 =
     \<lparr>src = None, data_src = Some '''', classList = [''lazy'']\<rparr>
   \<and> watching (intersections [(8, True)]
           \<lparr>imgs = (\<lambda>i. \<lparr>src = None, data_src = Some '''', classList = [''lazy'']\<rparr>),
            observer = Some [8]\<rparr>) 8"
  by (simp add: intersections_def io_callback_def on_entry_def truthy_def watching_def)

text \<open>
  C6, amended: for every watched image (the set-up watches the \<open>img\<close> elements of class
  \<open>lazy\<close>) whose \<open>data-src\<close> attribute is there and not empty, a batch of intersection entries
  that reports it visible leaves \<open>src\<close> equal to the deferred source, no \<open>data-src\<close>
  attribute, no \<open>lazy\<close> class, and the image no longer observed. Without
  \<open>IntersectionObserver\<close> the set-up installs nothing and no image is changed.
\<close>

theorem lazy_image_loaded_when_visible:
  "(watching st img \<longrightarrow> (img, True) \<in> set entries \<longrightarrow>
      data_src (imgs st img) = Some url \<longrightarrow> url \<noteq> [] \<longrightarrow>
      imgs (intersections entries st) img =
        \<lparr>src = Some url, data_src = None,
         classList = removeAll ''lazy'' (classList (imgs st img))\<rparr>
      \<and> ''lazy'' \<notin> set (classList (imgs (intersections entries st) img))
      \<and> \<not> watching (intersections entries st) img)
   \<and> setupImageLazyLoading False doc = Inr []
   \<and> intersections entries (lazy_initial False doc images) = lazy_initial False doc images
   \<and> observer (lazy_initial True doc images) =
       Some (map el_id
         (filter (\<lambda>e. el_tag e = ''img'' \<and> ''lazy'' \<in> set (el_classes e))
            (doc # descendants doc)))"
proof (intro conjI impI)
  assume w: "watching st img" and e: "(img, True) \<in> set entries"
    and d: "data_src (imgs st img) = Some url" and u: "url \<noteq> []"
  from w obtain watched where o: "observer st = Some watched" and m: "img \<in> set watched"
    by (auto simp: watching_def split: option.splits)
  have t: "truthy (data_src (imgs st img))"
    using d u by (simp add: truthy_def)
  have "(img, True) \<in> set (filter (\<lambda>entry. fst entry \<in> set watched) entries)"
    using e m by simp
  from io_callback_loads [OF t this]
  have r: "imgs (intersections entries st) img =
        \<lparr>src = Some url, data_src = None,
         classList = removeAll ''lazy'' (classList (imgs st img))\<rparr>"
    and n: "\<not> watching (intersections entries st) img"
    using o d by (simp_all add: intersections_def io_callback_def)
  show "imgs (intersections entries st) img =
        \<lparr>src = Some url, data_src = None,
         classList = removeAll ''lazy'' (classList (imgs st img))\<rparr>"
    by (rule r)
  show "''lazy'' \<notin> set (classList (imgs (intersections entries st) img))"
    by (simp add: r)
  show "\<not> watching (intersections entries st) img"
    by (rule n)
next
  show "setupImageLazyLoading False doc = Inr []"
    by (simp add: setupImageLazyLoading_def)
  show "intersections entries (lazy_initial False doc images) = lazy_initial False doc images"
    by (simp add: intersections_def lazy_initial_def)
  have ids: "observed_ids (map (\<lambda>img. Observe (el_id img)) xs) = map el_id xs" for xs
    by (induction xs) simp_all
  show "observer (lazy_initial True doc images) =
       Some (map el_id
         (filter (\<lambda>e. el_tag e = ''img'' \<and> ''lazy'' \<in> set (el_classes e))
            (doc # descendants doc)))"
  proof -
    have sel: "matches (Sel (Some ''img'') (Some ''lazy'') None) =
        (\<lambda>e. el_tag e = ''img'' \<and> ''lazy'' \<in> set (el_classes e))"
      by (rule ext) simp
    show ?thesis
      unfolding lazy_initial_def setupImageLazyLoading_def querySelectorAll_def sel
      by (simp add: ids)
  qed
qed

text \<open>On the full page image 8 is watched and ends with \<open>src = a.jpg\<close>.\<close>

theorem lazy_image_loaded_when_visible_witness:
  "imgs (intersections [(8, True)] (lazy_initial True full_page full_page_images)) 8 =
     \<lparr>src = Some ''a.jpg'', data_src = None, classList = []\<rparr>
   \<and> \<not> watching (intersections [(8, True)] (lazy_initial True full_page full_page_images)) 8"
proof -
  let ?st = "lazy_initial True full_page full_page_images"
  have o: "observer ?st = Some [8]"
    by (simp add: lazy_initial_def setupImageLazyLoading_def querySelectorAll_def full_page_def)
  then have w: "watching ?st 8" by (simp add: watching_def)
  have e: "(8, True) \<in> set [(8::nat, True)]" by simp
  have d: "data_src (imgs ?st 8) = Some ''a.jpg''"
    by (simp add: lazy_initial_def full_page_images_def)
  have c: "classList (imgs ?st 8) = [''lazy'']"
    by (simp add: lazy_initial_def full_page_images_def)
  have u: "''a.jpg'' \<noteq> []" by simp
  from lazy_image_loaded_when_visible
         [of ?st 8 "[(8, True)]" "''a.jpg''" full_page full_page_images] w e d u
  show ?thesis by (simp add: c)
qed


subsection \<open>A PDF link clicked twice\<close>









text \<open>
  Between the two timers the first one has put the label back; the second then replaces it.
\<close>

lemma label_between_the_timers:
  "link_run \<lparr>link_text = ''Resume'', timers = []\<rparr> [Activate 0, Activate 300, Elapse 1000] =
     \<lparr>link_text = ''Resume'', timers = [(1300, ''Loading...'')]\<rparr>"
  by (simp add: on_pdf_click_def run_timers_def)


subsection \<open>Missing elements\<close>

lemma on_card_keydown_completes:
  "(fst (on_card_keydown br link key) = Completed) =
     (has_click (interface_of br link) \<or> \<not> (key = ''Enter'' \<or> key = '' ''))"
  by (simp add: on_card_keydown_def call_click_def)

lemma on_touchend_completes:
  "(fst (card_touch br link (TouchEnd t) st) = Completed) =
     (has_click (interface_of br link) \<or> isTouchScrolling st
      \<or> \<not> t - touchStartTime st < 500)"
  by (auto simp: on_touchend_def call_click_def Let_def)

lemma on_document_keydown_completes:
  "(fst (on_document_keydown br doc key) = Completed) =
     (case querySelector doc (Sel None (Some ''back-link'') None) of
        None \<Rightarrow> True
      | Some backLink \<Rightarrow> has_click (interface_of br (el_id backLink)) \<or> key \<noteq> ''Escape'')"
  by (simp add: on_document_keydown_def call_click_def split: option.split)

lemma on_grid_keydown_completes:
  assumes "index < length ids"
    and "has_click (interface_of br link)"
    and "\<forall>el\<in>set ids. has_focus (interface_of br el)"
  shows "fst (on_grid_keydown br ids index link key active) = Completed"
proof -
  have f: "i < length ids \<Longrightarrow> fst (focus_item br ids (int i) active) = Completed" for i
    using assms(3) by (simp add: focus_item_def call_focus_def)
  have r: "int index < int (length ids) - 1 \<Longrightarrow>
      fst (focus_item br ids (int index + 1) active) = Completed"
    using f [of "index + 1"] by (simp add: add.commute)
  have l: "0 < index \<Longrightarrow> fst (focus_item br ids (int index - 1) active) = Completed"
    using f [of "index - 1"] assms(1) by (simp add: of_nat_diff)
  show ?thesis
    using assms(2) r l
    by (auto simp: on_grid_keydown_def call_click_def Let_def split: prod.splits)
qed

lemma on_anchor_click_completes:
  "(fst (on_anchor_click qs href) = Completed) =
     (href = Some ''#'' \<or> qs (case href of None \<Rightarrow> ''null'' | Some h \<Rightarrow> h) \<noteq> Invalid)"
  by (auto simp: on_anchor_click_def split: query_result.splits)

lemma on_img_error_completes:
  "(fst (on_img_error this) = Completed) = (siblings this \<noteq> None)"
  by (cases "siblings this") (auto simp: on_img_error_def Let_def)

lemma card_touch_completes:
  "fst (card_touch br link (TouchStart t (y # ys)) st) = Completed"
  "fst (card_touch br link (TouchMove (y # ys)) st) = Completed"
  by (simp_all add: on_touchstart_def on_touchmove_def Let_def)

text \<open>The reads and calls the listeners make unguarded, where they fail.\<close>

lemma touchstart_without_touch:
  "card_touch br link (TouchStart t []) st =
     (Thrown TypeError, [], st\<lparr>touchStartTime := t\<rparr>)"
  by (simp add: on_touchstart_def)

lemma touchmove_without_touch:
  "card_touch br link (TouchMove []) st = (Thrown TypeError, [], st)"
  by (simp add: on_touchmove_def)

lemma img_error_without_parent:
  "on_img_error \<lparr>display = d, siblings = None\<rparr> =
     (Thrown TypeError, \<lparr>display = ''none'', siblings = None\<rparr>)"
  by (simp add: on_img_error_def)

lemma keydown_without_click:
  "\<not> has_click (interface_of br link) \<Longrightarrow>
   on_card_keydown br link ''Enter'' = (Thrown TypeError, [PreventDefault])"
  by (simp add: on_card_keydown_def call_click_def)

text \<open>
  C8 as stated fails where it says that every installed listener completes without
  throwing. On the bare page (no header, a card and a grid item without a link, no back
  link) the set-up installs the click listener of the link to \<open>#2024\<close>; on a click
  \<open>document.querySelector\<close> rejects \<open>#2024\<close> as a selector and the listener ends with a
  SyntaxError. On the full page, when the \<open>.project-link\<close> is an SVG element, Enter on
  the card prevents default and ends with a TypeError.
\<close>

theorem fragment_click_throws_counterexample:
  "initializePortfolio True bare_page = Inr [OnAnchorClick 3, OnDocumentKeydown, OnImageError 4]
   \<and> on_anchor_click (page_querySelector (\<lambda>s. NotFound) bare_page) (Some ''#2024'') =
       (Thrown SyntaxError, [])
   \<and> on_card_keydown svg_link_browser 6 ''Enter'' = (Thrown TypeError, [PreventDefault])"
  by (simp add: initializePortfolio_def setupImageLazyLoading_def
        setupResponsiveNavigation_def setupSmoothScrolling_def setupProjectCardInteractions_def
        setupKeyboardNavigation_def setupErrorHandling_def card_setup_def grid_item_setup_def
        querySelectorAll_def querySelector_def querySelector_in_def bare_page_def
        enumerate_eq_zip on_anchor_click_def digit_def ident_start_def sublist_Cons_right
        on_card_keydown_def call_click_def svg_link_browser_def has_click_def)

text \<open>
  C8, amended: whatever optional elements are absent, each of the six set-up routines
  completes without throwing and \<open>initializePortfolio\<close> installs what all six install;
  without a header the scroll behaviour installs nothing, a card or grid item without a link
  gets nothing, and without a back link Escape does nothing, while the document's keydown
  listener, the scroll listener of a header that is there and the listeners of every card
  and grid item that has a link are installed all the same.
  The installed keydown, touch, click and error listeners complete without throwing under
  these conditions: the link a key or tap activates (\<open>.project-link\<close>, \<open>.grid-link\<close>,
  \<open>.back-link\<close>) is an HTML element, which has \<open>click()\<close>; the grid items have \<open>focus()\<close>;
  a touch-start or touch-move event carries a touch; \<open>document.querySelector\<close> accepts the
  fragment of a clicked link as a selector; the image that failed has a parent. For the
  card, touch-end, document, fragment and image listeners the conditions are exact.
\<close>

theorem init_survives_missing_elements:
  "(\<exists>lazy nav smooth cards keys errs.
      setupImageLazyLoading io doc = Inr lazy
      \<and> setupResponsiveNavigation doc = Inr nav
      \<and> setupSmoothScrolling doc = Inr smooth
      \<and> setupProjectCardInteractions doc = Inr cards
      \<and> setupKeyboardNavigation doc = Inr keys
      \<and> setupErrorHandling doc = Inr errs
      \<and> initializePortfolio io doc = Inr (lazy @ nav @ smooth @ cards @ keys @ errs))
   \<and> (querySelector doc (Sel None (Some ''header'') None) = None \<longrightarrow>
        setupResponsiveNavigation doc = Inr [])
   \<and> (querySelector_in c (Sel None (Some ''project-link'') None) = None \<longrightarrow>
        card_setup c = [])
   \<and> (querySelector_in c (Sel None (Some ''grid-link'') None) = None \<longrightarrow>
        grid_item_setup items (index, c) = [])
   \<and> (querySelector doc (Sel None (Some ''back-link'') None) = None \<longrightarrow>
        on_document_keydown br doc key = (Completed, []))
   \<and> (initializePortfolio io doc = Inr ls \<longrightarrow>
        OnDocumentKeydown \<in> set ls
        \<and> (querySelector doc (Sel None (Some ''header'') None) = Some h \<longrightarrow>
             OnScroll (el_id h) \<in> set ls)
        \<and> (n < length (querySelectorAll doc (Sel None (Some ''grid-item'') None)) \<longrightarrow>
             querySelector_in (querySelectorAll doc (Sel None (Some ''grid-item'') None) ! n)
               (Sel None (Some ''grid-link'') None) = Some l \<longrightarrow>
             OnGridKeydown
               (el_id (querySelectorAll doc (Sel None (Some ''grid-item'') None) ! n)) (el_id l)
               n (map el_id (querySelectorAll doc (Sel None (Some ''grid-item'') None)))
             \<in> set ls)
        \<and> (c \<in> set (querySelectorAll doc (Sel None (Some ''project-card'') None)) \<longrightarrow>
             querySelector_in c (Sel None (Some ''project-link'') None) = Some l \<longrightarrow>
             set [OnCardKeydown (el_id c) (el_id l), OnCardTouchstart (el_id c),
                  OnCardTouchmove (el_id c), OnCardTouchend (el_id c) (el_id l)] \<subseteq> set ls)
        \<and> (OnGridKeydown item link index ids \<in> set ls \<longrightarrow>
             has_click (interface_of br link) \<longrightarrow>
             (\<forall>el\<in>set ids. has_focus (interface_of br el)) \<longrightarrow>
             fst (on_grid_keydown br ids index link key active) = Completed))
   \<and> (fst (on_card_keydown br link key) = Completed) =
       (has_click (interface_of br link) \<or> \<not> (key = ''Enter'' \<or> key = '' ''))
   \<and> (fst (on_document_keydown br doc key) = Completed) =
       (case querySelector doc (Sel None (Some ''back-link'') None) of
          None \<Rightarrow> True
        | Some backLink \<Rightarrow> has_click (interface_of br (el_id backLink)) \<or> key \<noteq> ''Escape'')
   \<and> fst (card_touch br link (TouchStart t (y # ys)) st) = Completed
   \<and> fst (card_touch br link (TouchMove (y # ys)) st) = Completed
   \<and> (fst (card_touch br link (TouchEnd t) st) = Completed) =
       (has_click (interface_of br link) \<or> isTouchScrolling st
        \<or> \<not> t - touchStartTime st < 500)
   \<and> (fst (on_anchor_click qs href) = Completed) =
       (href = Some ''#'' \<or> qs (case href of None \<Rightarrow> ''null'' | Some h \<Rightarrow> h) \<noteq> Invalid)
   \<and> (fst (on_img_error this) = Completed) = (siblings this \<noteq> None)"
proof (intro conjI impI)
  show "\<exists>lazy nav smooth cards keys errs.
      setupImageLazyLoading io doc = Inr lazy
      \<and> setupResponsiveNavigation doc = Inr nav
      \<and> setupSmoothScrolling doc = Inr smooth
      \<and> setupProjectCardInteractions doc = Inr cards
      \<and> setupKeyboardNavigation doc = Inr keys
      \<and> setupErrorHandling doc = Inr errs
      \<and> initializePortfolio io doc = Inr (lazy @ nav @ smooth @ cards @ keys @ errs)"
    by (rule initializePortfolio_parts)
next
  assume "querySelector doc (Sel None (Some ''header'') None) = None"
  then show "setupResponsiveNavigation doc = Inr []"
    by (simp add: setupResponsiveNavigation_def)
next
  assume "querySelector_in c (Sel None (Some ''project-link'') None) = None"
  then show "card_setup c = []"
    by (simp add: card_setup_def)
next
  assume "querySelector_in c (Sel None (Some ''grid-link'') None) = None"
  then show "grid_item_setup items (index, c) = []"
    by (simp add: grid_item_setup_def)
next
  assume "querySelector doc (Sel None (Some ''back-link'') None) = None"
  then show "on_document_keydown br doc key = (Completed, [])"
    by (simp add: on_document_keydown_def)
next
  assume "initializePortfolio io doc = Inr ls"
  then show "OnDocumentKeydown \<in> set ls"
    by (rule document_keydown_installed)
next
  assume "initializePortfolio io doc = Inr ls"
    and "querySelector doc (Sel None (Some ''header'') None) = Some h"
  then show "OnScroll (el_id h) \<in> set ls"
    by (rule scroll_listener_installed)
next
  assume "initializePortfolio io doc = Inr ls"
    and "n < length (querySelectorAll doc (Sel None (Some ''grid-item'') None))"
    and "querySelector_in (querySelectorAll doc (Sel None (Some ''grid-item'') None) ! n)
               (Sel None (Some ''grid-link'') None) = Some l"
  then show "OnGridKeydown
               (el_id (querySelectorAll doc (Sel None (Some ''grid-item'') None) ! n)) (el_id l)
               n (map el_id (querySelectorAll doc (Sel None (Some ''grid-item'') None)))
             \<in> set ls"
    by (rule grid_listener_installed)
next
  assume "initializePortfolio io doc = Inr ls"
    and "c \<in> set (querySelectorAll doc (Sel None (Some ''project-card'') None))"
    and "querySelector_in c (Sel None (Some ''project-link'') None) = Some l"
  then show "set [OnCardKeydown (el_id c) (el_id l), OnCardTouchstart (el_id c),
                  OnCardTouchmove (el_id c), OnCardTouchend (el_id c) (el_id l)] \<subseteq> set ls"
    by (rule card_listeners_installed)
next
  assume "initializePortfolio io doc = Inr ls"
    and "OnGridKeydown item link index ids \<in> set ls"
  then have "index < length ids"
    by (rule grid_listener_index)
  moreover assume "has_click (interface_of br link)"
    and "\<forall>el\<in>set ids. has_focus (interface_of br el)"
  ultimately show "fst (on_grid_keydown br ids index link key active) = Completed"
    by (rule on_grid_keydown_completes)
next
  show "(fst (on_card_keydown br link key) = Completed) =
       (has_click (interface_of br link) \<or> \<not> (key = ''Enter'' \<or> key = '' ''))"
    by (rule on_card_keydown_completes)
  show "(fst (on_document_keydown br doc key) = Completed) =
       (case querySelector doc (Sel None (Some ''back-link'') None) of
          None \<Rightarrow> True
        | Some backLink \<Rightarrow> has_click (interface_of br (el_id backLink)) \<or> key \<noteq> ''Escape'')"
    by (rule on_document_keydown_completes)
  show "fst (card_touch br link (TouchStart t (y # ys)) st) = Completed"
    by (rule card_touch_completes)
  show "fst (card_touch br link (TouchMove (y # ys)) st) = Completed"
    by (rule card_touch_completes)
  show "(fst (card_touch br link (TouchEnd t) st) = Completed) =
       (has_click (interface_of br link) \<or> isTouchScrolling st
        \<or> \<not> t - touchStartTime st < 500)"
    by (rule on_touchend_completes)
  show "(fst (on_anchor_click qs href) = Completed) =
       (href = Some ''#'' \<or> qs (case href of None \<Rightarrow> ''null'' | Some h \<Rightarrow> h) \<noteq> Invalid)"
    by (rule on_anchor_click_completes)
  show "(fst (on_img_error this) = Completed) = (siblings this \<noteq> None)"
    by (rule on_img_error_completes)
qed

text \<open>
  On the bare page the absent header, links and back link are skipped and the document's
  keydown listener is installed; on the full page the scroll listener is installed, and
  Enter on the card, the grid listener of the third item and the click on \<open>#missing-id\<close>
  complete.
\<close>

theorem init_survives_missing_elements_witness:
  "setupResponsiveNavigation bare_page = Inr []
   \<and> card_setup (Elem 1 ''div'' [''project-card''] [] []) = []
   \<and> grid_item_setup [] (0, Elem 2 ''div'' [''grid-item''] [] []) = []
   \<and> on_document_keydown full_page_browser bare_page ''Escape'' = (Completed, [])
   \<and> OnDocumentKeydown \<in> set [OnAnchorClick 3, OnDocumentKeydown, OnImageError 4]
   \<and> OnScroll 1 \<in> set full_page_installed
   \<and> fst (on_card_keydown full_page_browser 6 ''Enter'') = Completed
   \<and> fst (on_grid_keydown full_page_browser [9, 11, 12] 2 13 ''ArrowLeft'' (Some 12))
       = Completed
   \<and> fst (on_anchor_click (page_querySelector (\<lambda>s. NotFound) full_page) (Some ''#missing-id''))
       = Completed"
proof -
  let ?card = "Elem 1 ''div'' [''project-card''] [] []"
  let ?item = "Elem 2 ''div'' [''grid-item''] [] []"
  let ?header = "Elem 1 ''header'' [''header''] [] []"
  let ?qs = "page_querySelector (\<lambda>s. NotFound) full_page"
  note bare = init_survives_missing_elements
      [where io = True and doc = bare_page and c = ?card and key = "''Escape''"
         and br = full_page_browser
         and ls = "[OnAnchorClick 3, OnDocumentKeydown, OnImageError 4]"]
  note bare_grid = init_survives_missing_elements
      [where io = True and doc = bare_page and c = ?item and items = "[]" and index = 0]
  note full = init_survives_missing_elements
      [where io = True and doc = full_page and item = 12 and link = 13 and index = 2
         and ids = "[9, 11, 12]" and key = "''ArrowLeft''" and qs = ?qs
         and href = "Some ''#missing-id''" and ls = full_page_installed and h = ?header
         and br = full_page_browser and active = "Some 12"]
  note enter = init_survives_missing_elements
      [where br = full_page_browser and link = 6 and key = "''Enter''"]
  have html: "has_click (interface_of full_page_browser x)" for x
    by (simp add: full_page_browser_def page_browser_def has_click_def)
  have foc: "\<forall>el\<in>set [9, 11, 12]. has_focus (interface_of full_page_browser el)"
    by (simp add: full_page_browser_def page_browser_def has_focus_def)
  have no_header: "querySelector bare_page (Sel None (Some ''header'') None) = None"
    by (simp add: querySelector_def bare_page_def)
  have no_link: "querySelector_in ?card (Sel None (Some ''project-link'') None) = None"
    by (simp add: querySelector_in_def)
  have no_grid_link: "querySelector_in ?item (Sel None (Some ''grid-link'') None) = None"
    by (simp add: querySelector_in_def)
  have no_back: "querySelector bare_page (Sel None (Some ''back-link'') None) = None"
    by (simp add: querySelector_def bare_page_def)
  have header: "querySelector full_page (Sel None (Some ''header'') None) = Some ?header"
    by (simp add: querySelector_def full_page_def)
  have grid: "OnGridKeydown 12 13 2 [9, 11, 12] \<in> set full_page_installed"
    by (simp add: full_page_installed_def)
  have missing: "?qs ''#missing-id'' \<noteq> Invalid"
    by (simp add: full_page_def element_by_id_def ident_start_def ident_char_def digit_def)
  from bare no_header have "setupResponsiveNavigation bare_page = Inr []" by blast
  moreover from bare no_link have "card_setup ?card = []" by blast
  moreover from bare_grid no_grid_link have "grid_item_setup [] (0, ?item) = []" by blast
  moreover from bare no_back
  have "on_document_keydown full_page_browser bare_page ''Escape'' = (Completed, [])"
    by blast
  moreover from bare bare_page_init
  have "OnDocumentKeydown \<in> set [OnAnchorClick 3, OnDocumentKeydown, OnImageError 4]"
    by blast
  moreover from full full_page_init header
  have "OnScroll 1 \<in> set full_page_installed"
    by (metis elem.sel(1))
  moreover from enter html [of 6]
  have "fst (on_card_keydown full_page_browser 6 ''Enter'') = Completed"
    by blast
  moreover from full full_page_init grid html [of 13] foc
  have "fst (on_grid_keydown full_page_browser [9, 11, 12] 2 13 ''ArrowLeft'' (Some 12))
      = Completed"
    by blast
  moreover from full missing
  have "fst (on_anchor_click ?qs (Some ''#missing-id'')) = Completed"
    by simp
  ultimately show ?thesis by blast
qed

end
